theory Spec2Isabelle
  imports Complex_Main
begin

section \<open>Data model: pandas data frames\<close>

text \<open>
  A cell of a data frame is a number, a text, a boolean or the missing marker (NaN / None).
  Python's int64 and float64 values are both modelled as reals; floating-point rounding is
  not modelled.
\<close>

datatype cell = Num real | Str string | Bool bool | NA

text \<open>
  The dtype tag of a column. The source tests it in two ways: membership in
  \<^verbatim>\<open>['int64', 'float64']\<close> (missing-value analyzer, cleaner) and
  \<^verbatim>\<open>select_dtypes(include=[np.number])\<close> (profiler, outlier detector);
  the narrower numeric dtypes satisfy the second test only. Datetime columns are outside
  the model.
\<close>

datatype dtype = Int64 | Float64 | Int32 | Float32 | Object | BoolT

fun is_int64_float64 :: "dtype \<Rightarrow> bool" where
  "is_int64_float64 Int64 = True"
| "is_int64_float64 Float64 = True"
| "is_int64_float64 _ = False"

fun is_np_number :: "dtype \<Rightarrow> bool" where
  "is_np_number Int64 = True"
| "is_np_number Float64 = True"
| "is_np_number Int32 = True"
| "is_np_number Float32 = True"
| "is_np_number _ = False"

text \<open>
  A data frame: the column labels with their dtypes, in order, and the rows, each a list of
  cells in column order. The frames the program is given have distinct labels, rows as long
  as the header, and numbers or missing cells in their numeric columns; the functions below
  are total all the same (a label that occurs twice reads its first column, a cell beyond
  the end of a row reads as missing).
\<close>

record dataframe =
  columns :: "(string \<times> dtype) list"
  rows :: "cell list list"

definition col_names :: "dataframe \<Rightarrow> string list" where
  "col_names df = map fst (columns df)"

text \<open>Position of the first column labelled \<open>c\<close> (the number of columns when there is none).\<close>

fun col_pos :: "(string \<times> dtype) list \<Rightarrow> string \<Rightarrow> nat" where
  "col_pos [] c = 0"
| "col_pos ((n, t) # cs) c = (if n = c then 0 else Suc (col_pos cs c))"

definition cell_at :: "cell list \<Rightarrow> nat \<Rightarrow> cell" where
  "cell_at r i = (if i < length r then r ! i else NA)"

text \<open>\<^verbatim>\<open>df[col]\<close>: the cells of a column. Every use in the source is guarded by
  \<^verbatim>\<open>col in df.columns\<close> or iterates over \<^verbatim>\<open>df.columns\<close>.\<close>

definition series :: "dataframe \<Rightarrow> string \<Rightarrow> cell list" where
  "series df c = map (\<lambda>r. cell_at r (col_pos (columns df) c)) (rows df)"

text \<open>\<^verbatim>\<open>df[col].dtype\<close>\<close>

definition dtype_of :: "dataframe \<Rightarrow> string \<Rightarrow> dtype" where
  "dtype_of df c = (case map_of (columns df) c of Some t \<Rightarrow> t | None \<Rightarrow> Object)"

text \<open>\<^verbatim>\<open>series.isna().sum()\<close>\<close>

definition isna_sum :: "cell list \<Rightarrow> nat" where
  "isna_sum xs = length (filter (\<lambda>x. x = NA) xs)"

text \<open>\<^verbatim>\<open>series.dropna()\<close> of a numeric column: its non-missing values (a boolean
  among them counts as 0 or 1, a text is passed over).\<close>

fun dropna_values :: "cell list \<Rightarrow> real list" where
  "dropna_values [] = []"
| "dropna_values (Num v # xs) = v # dropna_values xs"
| "dropna_values (Bool b # xs) = (if b then 1 else 0) # dropna_values xs"
| "dropna_values (_ # xs) = dropna_values xs"

text \<open>\<^verbatim>\<open>df.isna().sum().sum()\<close>: the missing cells of the whole frame.\<close>

definition total_missing :: "dataframe \<Rightarrow> nat" where
  "total_missing df = sum_list (map (\<lambda>c. isna_sum (series df c)) (col_names df))"

text \<open>\<^verbatim>\<open>df.empty\<close>: some axis has length zero.\<close>

definition df_empty :: "dataframe \<Rightarrow> bool" where
  "df_empty df = (rows df = [] \<or> columns df = [])"

text \<open>The fixture \<^verbatim>\<open>base_test_data\<close> of tests/conftest.py.\<close>

definition base_test_data :: dataframe where
  "base_test_data = \<lparr>
     columns = [(''id'', Int64), (''age'', Int64), (''salary'', Float64),
                (''department'', Object), (''remote'', BoolT)],
     rows = [
       [Num 1, Num 20, Num 50000, Str ''IT'', Bool True],
       [Num 2, Num 25, Num 52000, Str ''IT'', Bool True],
       [Num 3, Num 30, Num 54000, Str ''HR'', Bool False],
       [Num 4, Num 35, Num 56000, Str ''HR'', Bool False],
       [Num 5, Num 40, Num 58000, Str ''Sales'', Bool True],
       [Num 6, Num 45, Num 60000, Str ''Sales'', Bool False],
       [Num 7, Num 50, Num 62000, Str ''IT'', Bool True],
       [Num 8, Num 55, Num 64000, Str ''IT'', Bool False],
       [Num 9, Num 60, Num 66000, Str ''HR'', Bool True],
       [Num 10, Num 150, NA, Str ''IT'', Bool True]] \<rparr>"


section \<open>MissingValueAnalyzer (src/missing\_analyzer.py)\<close>

datatype severity = Sev_none | Sev_info | Sev_warning | Sev_error

record missing_finding =
  mf_column :: string
  mf_missing_count :: nat
  mf_missing_percentage :: real
  mf_severity :: severity
  mf_dtype :: dtype
  mf_strategies :: "string list"






section \<open>DataValidator (src/validator.py)\<close>

datatype error = TypeError | KeyError | SyntaxError | UndefinedVariableError

text \<open>One entry of the constraint mapping: the optional keys
  \<^verbatim>\<open>min\<close>, \<^verbatim>\<open>max\<close> and \<^verbatim>\<open>relationship\<close>.\<close>

record rules =
  rule_min :: "real option"
  rule_max :: "real option"
  rule_relationship :: "string option"

text \<open>The constraint mapping is a dict, iterated in insertion order.\<close>

type_synonym constraints = "(string \<times> rules) list"

datatype constraint_kind = Min_value | Max_value | Business_rule

text \<open>The \<^verbatim>\<open>expected\<close> / \<^verbatim>\<open>rule\<close> entry of a violation record:
  \<^verbatim>\<open>f">= {min}"\<close>, \<^verbatim>\<open>f"<= {max}"\<close> or the relationship text.\<close>

datatype expectation = Ge real | Le real | Rule string

record violation =
  v_column :: string
  v_constraint :: constraint_kind
  v_violations :: nat
  v_percentage :: real
  v_expected :: expectation
  v_severity :: severity

text \<open>
  \<^verbatim>\<open>series < bound\<close> and \<^verbatim>\<open>series > bound\<close>, cell by cell: a missing cell
  compares false, a boolean compares as 0 or 1, and a text cell against a number raises
  TypeError, as pandas does on an object column. The bounds of the model are numbers, and
  its columns hold numbers, texts, booleans and missing cells; what pandas does for a bound
  of another type or for a datetime column is not modelled, and the theorems on
  \<open>validate_all\<close> promise a result only for bounds on numeric and boolean columns.
\<close>

fun cell_lt :: "cell \<Rightarrow> real \<Rightarrow> error + bool" where
  "cell_lt (Num v) b = Inr (v < b)"
| "cell_lt (Bool t) b = Inr ((if t then 1 else 0) < b)"
| "cell_lt NA b = Inr False"
| "cell_lt (Str s) b = Inl TypeError"

fun cell_gt :: "cell \<Rightarrow> real \<Rightarrow> error + bool" where
  "cell_gt (Num v) b = Inr (v > b)"
| "cell_gt (Bool t) b = Inr ((if t then 1 else 0) > b)"
| "cell_gt NA b = Inr False"
| "cell_gt (Str s) b = Inl TypeError"

fun compare_series :: "(cell \<Rightarrow> real \<Rightarrow> error + bool) \<Rightarrow> cell list \<Rightarrow> real \<Rightarrow> error + bool list" where
  "compare_series cmp [] b = Inr []"
| "compare_series cmp (x # xs) b =
     (case cmp x b of Inl e \<Rightarrow> Inl e
      | Inr t \<Rightarrow> (case compare_series cmp xs b of Inl e \<Rightarrow> Inl e | Inr ts \<Rightarrow> Inr (t # ts)))"



text \<open>\<^verbatim>\<open>df[mask]\<close>: the rows whose mask entry is true.\<close>

definition select_rows :: "dataframe \<Rightarrow> bool list \<Rightarrow> dataframe" where
  "select_rows df sel = df\<lparr>rows := map snd (filter fst (zip sel (rows df)))\<rparr>"

text \<open>The accumulators \<^verbatim>\<open>violations\<close> and \<^verbatim>\<open>total_violations_count\<close>.\<close>

type_synonym acc = "violation list \<times> nat"

definition check_min :: "dataframe \<Rightarrow> string \<Rightarrow> rules \<Rightarrow> acc \<Rightarrow> error + acc" where
  "check_min df col r a =
     (case rule_min r of None \<Rightarrow> Inr a
      | Some b \<Rightarrow>
         (case compare_series cell_lt (series df col) b of Inl e \<Rightarrow> Inl e
          | Inr sel \<Rightarrow>
             (let invalid = select_rows df sel in
              if \<not> df_empty invalid
              then Inr (fst a @ [\<lparr> v_column = col, v_constraint = Min_value,
                                   v_violations = length (rows invalid),
                                   v_percentage = real (length (rows invalid)) / real (length (rows df)) * 100,
                                   v_expected = Ge b, v_severity = Sev_error \<rparr>],
                        snd a + length (rows invalid))
              else Inr a)))"

definition check_max :: "dataframe \<Rightarrow> string \<Rightarrow> rules \<Rightarrow> acc \<Rightarrow> error + acc" where
  "check_max df col r a =
     (case rule_max r of None \<Rightarrow> Inr a
      | Some b \<Rightarrow>
         (case compare_series cell_gt (series df col) b of Inl e \<Rightarrow> Inl e
          | Inr sel \<Rightarrow>
             (let invalid = select_rows df sel in
              if \<not> df_empty invalid
              then Inr (fst a @ [\<lparr> v_column = col, v_constraint = Max_value,
                                   v_violations = length (rows invalid),
                                   v_percentage = real (length (rows invalid)) / real (length (rows df)) * 100,
                                   v_expected = Le b, v_severity = Sev_error \<rparr>],
                        snd a + length (rows invalid))
              else Inr a)))"

text \<open>
  \<^verbatim>\<open>DataFrame.query\<close> is pandas' expression evaluator; it is a parameter \<open>query\<close> of the
  model, returning the selected frame or the exception it raised. The whole relationship
  branch is inside \<^verbatim>\<open>try: ... except: pass\<close>, so every exception (also the division
  by a zero row count) leaves the accumulators as they were.
\<close>

type_synonym query_fn = "dataframe \<Rightarrow> string \<Rightarrow> error + dataframe"

definition check_relationship :: "query_fn \<Rightarrow> dataframe \<Rightarrow> string \<Rightarrow> rules \<Rightarrow> acc \<Rightarrow> acc" where
  "check_relationship query df col r a =
     (case rule_relationship r of None \<Rightarrow> a
      | Some rel \<Rightarrow>
         (case query df (''not ('' @ rel @ '')'') of Inl e \<Rightarrow> a
          | Inr rel_invalid \<Rightarrow>
             if \<not> df_empty rel_invalid
             then (if length (rows df) = 0 then a
                   else (fst a @ [\<lparr> v_column = col, v_constraint = Business_rule,
                                    v_violations = length (rows rel_invalid),
                                    v_percentage = real (length (rows rel_invalid)) / real (length (rows df)) * 100,
                                    v_expected = Rule rel, v_severity = Sev_warning \<rparr>],
                         snd a + length (rows rel_invalid)))
             else a))"

text \<open>The loop over \<^verbatim>\<open>self.constraints.items()\<close>.\<close>

fun validate_loop :: "query_fn \<Rightarrow> dataframe \<Rightarrow> constraints \<Rightarrow> acc \<Rightarrow> error + acc" where
  "validate_loop query df [] a = Inr a"
| "validate_loop query df ((col, r) # rest) a =
     (if col \<notin> set (col_names df) then validate_loop query df rest a
      else (case check_min df col r a of Inl e \<Rightarrow> Inl e
            | Inr a1 \<Rightarrow>
               (case check_max df col r a1 of Inl e \<Rightarrow> Inl e
                | Inr a2 \<Rightarrow> validate_loop query df rest (check_relationship query df col r a2))))"

text \<open>
  \<^verbatim>\<open>score = max(0, 100 - (total / (len(df) * len(df.columns) or 1)) * 1000)\<close>, then
  \<^verbatim>\<open>if df.isna().sum().sum() > 0: score -= 5\<close>.
\<close>

definition quality_score :: "dataframe \<Rightarrow> nat \<Rightarrow> real" where
  "quality_score df total_violations_count =
     (let cells = length (rows df) * length (columns df);
          score = max 0 (100 - real total_violations_count / real (if cells = 0 then 1 else cells) * 1000)
      in if total_missing df > 0 then score - 5 else score)"

record validation_result =
  data_quality_score :: real
  validation_passed :: bool
  total_issues :: nat
  severity_breakdown_error :: nat
  severity_breakdown_warning :: nat
  constraint_violations :: "violation list"
  categorical_consistency :: "string list"

definition validate_all :: "query_fn \<Rightarrow> dataframe \<Rightarrow> constraints \<Rightarrow> error + validation_result" where
  "validate_all query df cons =
     (case validate_loop query df cons ([], 0) of Inl e \<Rightarrow> Inl e
      | Inr (violations, total_violations_count) \<Rightarrow>
          (let score = quality_score df total_violations_count in
           Inr \<lparr> data_quality_score = score,
                 validation_passed = (score \<ge> 80),
                 total_issues = length violations,
                 severity_breakdown_error = length (filter (\<lambda>v. v_severity v = Sev_error) violations),
                 severity_breakdown_warning = length (filter (\<lambda>v. v_severity v = Sev_warning) violations),
                 constraint_violations = violations,
                 categorical_consistency = [] \<rparr>))"


section \<open>Shared pandas operations\<close>

text \<open>\<^verbatim>\<open>series.nunique()\<close>: the number of distinct non-missing values.\<close>

definition nunique :: "cell list \<Rightarrow> nat" where
  "nunique xs = length (remdups (filter (\<lambda>x. x \<noteq> NA) xs))"

text \<open>
  \<^verbatim>\<open>df.duplicated()\<close>: a row is marked when an equal row came before it (missing cells
  compare equal here, as in pandas). \<open>seen\<close> holds the rows scanned so far.
\<close>

fun duplicated_from :: "cell list list \<Rightarrow> cell list list \<Rightarrow> bool list" where
  "duplicated_from seen [] = []"
| "duplicated_from seen (r # rs) = (r \<in> set seen) # duplicated_from (r # seen) rs"

definition duplicated :: "dataframe \<Rightarrow> bool list" where
  "duplicated df = duplicated_from [] (rows df)"

text \<open>
  \<^verbatim>\<open>series.quantile(q)\<close> with pandas' default linear interpolation, on the non-missing
  values \<open>vs\<close>: position \<open>(n - 1) * q\<close> in the sorted values, interpolated between its
  two neighbours. pandas returns NaN on no values; the callers below test for that case
  before they call.
\<close>

definition quantile :: "real list \<Rightarrow> real \<Rightarrow> real" where
  "quantile vs q =
     (let s = sort vs;
          h = (real (length s) - 1) * q;
          lo = nat \<lfloor>h\<rfloor>;
          hi = min (lo + 1) (length s - 1)
      in s ! lo + (h - real lo) * (s ! hi - s ! lo))"


section \<open>DatasetProfiler (src/profiler.py)\<close>

text \<open>A reported statistic: \<^verbatim>\<open>None\<close>, the float NaN, or a number.\<close>

datatype stat = Absent | NaN | Val real

text \<open>
  The pandas reductions \<^verbatim>\<open>mean\<close>, \<^verbatim>\<open>std\<close> (sample, ddof = 1), \<^verbatim>\<open>min\<close>,
  \<^verbatim>\<open>max\<close> and \<^verbatim>\<open>median\<close> skip missing cells and return NaN when too few values
  are left; \<open>vs\<close> are the non-missing values.
\<close>

definition series_mean :: "real list \<Rightarrow> stat" where
  "series_mean vs = (if vs = [] then NaN else Val (sum_list vs / real (length vs)))"

definition series_std :: "real list \<Rightarrow> stat" where
  "series_std vs =
     (if length vs < 2 then NaN
      else (let m = sum_list vs / real (length vs)
            in Val (sqrt (sum_list (map (\<lambda>x. (x - m)\<^sup>2) vs) / (real (length vs) - 1)))))"

definition series_min :: "real list \<Rightarrow> stat" where
  "series_min vs = (if vs = [] then NaN else Val (Min (set vs)))"

definition series_max :: "real list \<Rightarrow> stat" where
  "series_max vs = (if vs = [] then NaN else Val (Max (set vs)))"

definition series_median :: "real list \<Rightarrow> stat" where
  "series_median vs = (if vs = [] then NaN else Val (quantile vs (1 / 2)))"

record numeric_stats =
  ns_mean :: stat
  ns_std :: stat
  ns_min :: stat
  ns_max :: stat
  ns_median :: stat

text \<open>The statistics of one column; \<open>cs_numeric\<close> is \<open>None\<close> for a column that is not
  numeric (the five keys are not in the dict).\<close>

record column_stats =
  cs_dtype :: dtype
  cs_missing_count :: nat
  cs_missing_percentage :: stat
  cs_unique_count :: nat
  cs_is_constant :: bool
  cs_numeric :: "numeric_stats option"

text \<open>The profile; the estimated memory footprint and the list of datetime columns are
  not modelled.\<close>

record profile =
  total_rows :: nat
  total_columns :: nat
  duplicate_rows :: nat
  constant_columns :: "string list"
  numeric_cols :: "string list"
  categorical_cols :: "string list"
  boolean_cols :: "string list"
  column_profiles :: "(string \<times> column_stats) list"

text \<open>
  The body of the loop over the columns. \<^verbatim>\<open>col_data.empty\<close> tests the length of the
  column as it is, missing cells included: it is true exactly when the frame has no rows.
  The division by \<^verbatim>\<open>len(self.df)\<close> is numpy's, which gives NaN on 0/0.
\<close>

definition profile_column :: "dataframe \<Rightarrow> string list \<Rightarrow> string list \<Rightarrow> string \<Rightarrow> column_stats" where
  "profile_column df numeric constant c =
     (let col_data = series df c;
          vs = dropna_values col_data
      in \<lparr> cs_dtype = dtype_of df c,
           cs_missing_count = isna_sum col_data,
           cs_missing_percentage =
             (if length (rows df) = 0 then NaN
              else Val (real (isna_sum col_data) / real (length (rows df)) * 100)),
           cs_unique_count = nunique col_data,
           cs_is_constant = (c \<in> set constant),
           cs_numeric =
             (if c \<in> set numeric
              then Some \<lparr> ns_mean = (if col_data \<noteq> [] then series_mean vs else Absent),
                          ns_std = (if col_data \<noteq> [] then series_std vs else Absent),
                          ns_min = (if col_data \<noteq> [] then series_min vs else Absent),
                          ns_max = (if col_data \<noteq> [] then series_max vs else Absent),
                          ns_median = (if col_data \<noteq> [] then series_median vs else Absent) \<rparr>
              else None) \<rparr>)"

definition generate_profile :: "dataframe \<Rightarrow> profile" where
  "generate_profile df =
     (let numeric = map fst (filter (\<lambda>(c, t). is_np_number t) (columns df));
          categorical = map fst (filter (\<lambda>(c, t). t = Object) (columns df));
          boolean = map fst (filter (\<lambda>(c, t). t = BoolT) (columns df));
          constant = filter (\<lambda>c. nunique (series df c) \<le> 1) (col_names df)
      in \<lparr> total_rows = length (rows df),
           total_columns = length (columns df),
           duplicate_rows = length (filter (\<lambda>b. b) (duplicated df)),
           constant_columns = constant,
           numeric_cols = numeric,
           categorical_cols = categorical,
           boolean_cols = boolean,
           column_profiles = map (\<lambda>c. (c, profile_column df numeric constant c)) (col_names df) \<rparr>)"


section \<open>OutlierDetector (src/outlier\_detector.py)\<close>

datatype outlier_severity = Low | Medium | High

record outlier_finding =
  iqr_outliers :: nat
  zscore_outliers :: nat
  isolation_outliers :: nat
  of_severity :: outlier_severity

text \<open>The result dict: the \<^verbatim>\<open>error\<close> key (when present) and the summary.\<close>

record outlier_result =
  or_error :: "string option"
  per_column_summary :: "(string \<times> outlier_finding) list"
  total_ml_outliers :: nat

text \<open>
  \<^verbatim>\<open>select_dtypes(include=[np.number]).dropna(axis=1, how='all')\<close>: the numeric columns
  that have a non-missing cell (with no rows, every column counts as all missing).
\<close>

definition numeric_df_columns :: "dataframe \<Rightarrow> string list" where
  "numeric_df_columns df =
     map fst (filter (\<lambda>(c, t). is_np_number t \<and> (\<exists>x \<in> set (series df c). x \<noteq> NA)) (columns df))"

text \<open>The count of values outside the fences \<open>q1 - k * iqr\<close> and \<open>q3 + k * iqr\<close>.\<close>

definition count_iqr_outliers :: "real list \<Rightarrow> real \<Rightarrow> nat" where
  "count_iqr_outliers vs k =
     (let q1 = quantile vs (25 / 100);
          q3 = quantile vs (75 / 100);
          iqr = q3 - q1
      in length (filter (\<lambda>x. x < q1 - k * iqr \<or> x > q3 + k * iqr) vs))"

text \<open>\<^verbatim>\<open>np.abs(stats.zscore(series)) > threshold\<close>, with scipy's population standard
  deviation (ddof = 0).\<close>

definition count_zscore_outliers :: "real list \<Rightarrow> real \<Rightarrow> nat" where
  "count_zscore_outliers vs threshold =
     (let m = sum_list vs / real (length vs);
          sd = sqrt (sum_list (map (\<lambda>x. (x - m)\<^sup>2) vs) / real (length vs))
      in length (filter (\<lambda>x. \<bar>(x - m) / sd\<bar> > threshold) vs))"

definition detect_column :: "dataframe \<Rightarrow> real \<Rightarrow> real \<Rightarrow> string \<Rightarrow> outlier_finding" where
  "detect_column df iqr_multiplier zscore_threshold c =
     (let vs = dropna_values (series df c);
          n = count_iqr_outliers vs iqr_multiplier
      in \<lparr> iqr_outliers = n,
           zscore_outliers = count_zscore_outliers vs zscore_threshold,
           isolation_outliers = 0,
           of_severity = (if real n > 5 / 100 * real (length (rows df)) then High
                          else if n > 0 then Medium else Low) \<rparr>)"

text \<open>
  \<^verbatim>\<open>numeric_df.loc[:, numeric_df.nunique() > 1].fillna(numeric_df.median())\<close>: the rows
  of the varying numeric columns, a missing cell replaced by the median of its column.
\<close>

definition valid_numeric_data :: "dataframe \<Rightarrow> real list list" where
  "valid_numeric_data df =
     (let cs = filter (\<lambda>c. nunique (series df c) > 1) (numeric_df_columns df)
      in map (\<lambda>r. map (\<lambda>c. case cell_at r (col_pos (columns df) c) of
                               Num v \<Rightarrow> v
                             | _ \<Rightarrow> quantile (dropna_values (series df c)) (1 / 2)) cs)
             (rows df))"

text \<open>
  scikit-learn's IsolationForest is a parameter of the model: from the contamination and
  the data it gives the number of rows predicted -1, or \<open>None\<close> when it raises (the source
  catches \<^verbatim>\<open>Exception\<close> and keeps the count 0).
\<close>

type_synonym isolation_forest = "real \<Rightarrow> real list list \<Rightarrow> nat option"

definition detect_all :: "isolation_forest \<Rightarrow> dataframe \<Rightarrow> real \<Rightarrow> real \<Rightarrow> real \<Rightarrow> outlier_result" where
  "detect_all forest df iqr_multiplier zscore_threshold isolation_contamination =
     (let numeric = numeric_df_columns df in
      if numeric = [] \<or> rows df = []
      then \<lparr> or_error = Some ''No numeric data available for outlier detection'',
             per_column_summary = [], total_ml_outliers = 0 \<rparr>
      else
        (let per_column =
               map (\<lambda>c. (c, detect_column df iqr_multiplier zscore_threshold c))
                   (filter (\<lambda>c. \<not> nunique (series df c) \<le> 1) numeric);
             dat = valid_numeric_data df;
             total_iso_outliers =
               (if \<not> (dat = [] \<or> filter (\<lambda>c. nunique (series df c) > 1) numeric = [])
                then (case forest isolation_contamination dat of Some n \<Rightarrow> n | None \<Rightarrow> 0)
                else 0)
         in \<lparr> or_error = None, per_column_summary = per_column,
               total_ml_outliers = total_iso_outliers \<rparr>))"


section \<open>Example frames\<close>

text \<open>A frame whose numeric column \<open>x\<close> holds only missing cells:
  \<^verbatim>\<open>pd.DataFrame({'x': [np.nan, np.nan], 's': ['a', 'b']})\<close>.\<close>

definition all_missing_frame :: dataframe where
  "all_missing_frame = \<lparr> columns = [(''x'', Float64), (''s'', Object)],
                          rows = [[NA, Str ''a''], [NA, Str ''b'']] \<rparr>"

text \<open>A frame with a constant numeric column \<open>k\<close>, a varying numeric column \<open>v\<close> and a
  constant text column \<open>s\<close>.\<close>

definition constant_column_frame :: dataframe where
  "constant_column_frame = \<lparr> columns = [(''k'', Int64), (''v'', Float64), (''s'', Object)],
                              rows = [[Num 7, Num 1, Str ''a''], [Num 7, Num 2, Str ''a''],
                                      [Num 7, NA, Str ''a'']] \<rparr>"


text \<open>A frame in which the third and fourth row repeat the first and second.\<close>

definition duplicate_rows_frame :: dataframe where
  "duplicate_rows_frame = \<lparr> columns = [(''a'', Int64), (''b'', Object)],
                             rows = [[Num 1, Str ''x''], [Num 2, NA],
                                     [Num 1, Str ''x''], [Num 2, NA]] \<rparr>"


section \<open>DataCleaner (src/cleaner.py)\<close>

text \<open>
  The cleaner mutates a pandas object in place, and the caller keeps a reference to the
  frame it passed in; so frames live in an object store, a map from addresses to frames
  with an allocation pointer. The cleaner object holds the address \<^verbatim>\<open>self.df\<close> and
  the list \<^verbatim>\<open>self.history\<close>.
\<close>

type_synonym addr = nat

text \<open>The entries of the action log; each stands for the formatted text in the comment.\<close>

datatype action =
    Enforced_numeric string  \<comment> \<open>Enforced numeric type for col\<close>
  | Enforced_categorical string  \<comment> \<open>Enforced categorical type for col\<close>
  | Dropped_constant_columns "string list"  \<comment> \<open>Dropped constant columns: a, b\<close>
  | Dropped_duplicates nat  \<comment> \<open>Dropped n duplicate rows\<close>
  | Dropped_missing_rows string  \<comment> \<open>Dropped rows with missing col (High Severity)\<close>
  | Imputed_median string "real option"  \<comment> \<open>Imputed missing col with median (v); \<open>None\<close> is nan\<close>
  | Imputed_mode string cell  \<comment> \<open>Imputed missing col with mode (v)\<close>
  | Clipped string  \<comment> \<open>Clipped outliers in col\<close>
  | Removed_outlier_rows string  \<comment> \<open>Removed rows with outliers in col\<close>

record cleaner =
  heap :: "addr \<Rightarrow> dataframe"
  next_addr :: addr
  self_df :: addr
  history :: "action list"

text \<open>The frame \<^verbatim>\<open>self.df\<close> refers to.\<close>

definition cur :: "cleaner \<Rightarrow> dataframe" where
  "cur s = heap s (self_df s)"

text \<open>An in-place update of the object \<^verbatim>\<open>self.df\<close> refers to.\<close>

definition set_cur :: "cleaner \<Rightarrow> dataframe \<Rightarrow> cleaner" where
  "set_cur s df = s\<lparr>heap := (heap s)(self_df s := df)\<rparr>"

text \<open>\<^verbatim>\<open>self.df = <new frame>\<close>: a fresh object, and the attribute bound to it.\<close>

definition rebind :: "cleaner \<Rightarrow> dataframe \<Rightarrow> cleaner" where
  "rebind s df = s\<lparr>heap := (heap s)(next_addr s := df), self_df := next_addr s,
                    next_addr := Suc (next_addr s)\<rparr>"

definition log_action :: "cleaner \<Rightarrow> action \<Rightarrow> cleaner" where
  "log_action s a = s\<lparr>history := history s @ [a]\<rparr>"

text \<open>
  \<^verbatim>\<open>DataCleaner(df)\<close> in the store \<open>h\<close> whose first unused address is \<open>n\<close>, for the
  frame at address \<open>a\<close>: \<^verbatim>\<open>self.df = df.copy()\<close> allocates a new object with the same
  content, and \<^verbatim>\<open>self.history = []\<close>.
\<close>

definition cleaner_init :: "(addr \<Rightarrow> dataframe) \<Rightarrow> addr \<Rightarrow> addr \<Rightarrow> cleaner" where
  "cleaner_init h n a = \<lparr> heap = h(n := h a), next_addr = Suc n, self_df = n, history = [] \<rparr>"

subsection \<open>Frame operations used by the cleaner\<close>

text \<open>\<^verbatim>\<open>df[col] = series\<close> for a column that exists: new dtype and new cells, aligned
  by position (a position the series does not cover becomes missing).\<close>

definition set_column :: "dataframe \<Rightarrow> string \<Rightarrow> dtype \<Rightarrow> cell list \<Rightarrow> dataframe" where
  "set_column df c t vs =
     (let i = col_pos (columns df) c
      in \<lparr> columns = (columns df)[i := (c, t)],
           rows = map (\<lambda>(k, r). r[i := (if k < length vs then vs ! k else NA)])
                      (zip [0..<length (rows df)] (rows df)) \<rparr>)"

text \<open>\<^verbatim>\<open>df[col] = df[col].<cellwise operation>\<close> that keeps the dtype.\<close>

definition map_column :: "dataframe \<Rightarrow> string \<Rightarrow> (cell \<Rightarrow> cell) \<Rightarrow> dataframe" where
  "map_column df c f =
     (let i = col_pos (columns df) c
      in df\<lparr>rows := map (\<lambda>r. r[i := f (cell_at r i)]) (rows df)\<rparr>)"

text \<open>\<^verbatim>\<open>df.drop(columns=cs)\<close>, for labels that all exist.\<close>

definition drop_columns :: "dataframe \<Rightarrow> string list \<Rightarrow> dataframe" where
  "drop_columns df cs =
     (let keep = map (\<lambda>(c, t). c \<notin> set cs) (columns df)
      in \<lparr> columns = map snd (filter fst (zip keep (columns df))),
           rows = map (\<lambda>r. map snd (filter fst (zip keep r))) (rows df) \<rparr>)"

text \<open>\<^verbatim>\<open>df.dropna(subset=[col])\<close>\<close>

definition dropna_subset :: "dataframe \<Rightarrow> string \<Rightarrow> dataframe" where
  "dropna_subset df c =
     df\<lparr>rows := filter (\<lambda>r. cell_at r (col_pos (columns df) c) \<noteq> NA) (rows df)\<rparr>"

text \<open>\<^verbatim>\<open>series.fillna(v)\<close>\<close>

definition fillna :: "cell \<Rightarrow> cell \<Rightarrow> cell" where
  "fillna v x = (if x = NA then v else x)"

subsection \<open>enforce\_types\<close>

text \<open>The dict \<^verbatim>\<open>expected_types\<close>; a key that is not there reads as the empty list.\<close>

record expected_types =
  numeric_columns :: "string list"
  categorical_columns :: "string list"

text \<open>
  \<^verbatim>\<open>pd.to_numeric(series, errors='coerce')\<close> is a parameter of the model: from the
  dtype and the cells of a column it gives the new dtype and the new cells.
\<close>

type_synonym to_numeric_fn = "dtype \<Rightarrow> cell list \<Rightarrow> dtype \<times> cell list"

fun enforce_numeric :: "to_numeric_fn \<Rightarrow> string list \<Rightarrow> cleaner \<Rightarrow> cleaner" where
  "enforce_numeric to_numeric [] s = s"
| "enforce_numeric to_numeric (col # cols) s =
     (if col \<in> set (col_names (cur s))
      then (let initial_dtype = dtype_of (cur s) col;
                new = to_numeric initial_dtype (series (cur s) col);
                s1 = set_cur s (set_column (cur s) col (fst new) (snd new))
            in enforce_numeric to_numeric cols
                 (if initial_dtype \<noteq> dtype_of (cur s1) col
                  then log_action s1 (Enforced_numeric col) else s1))
      else enforce_numeric to_numeric cols s)"

text \<open>
  \<^verbatim>\<open>series.astype(str).replace('nan', np.nan)\<close>: every cell becomes its text (the
  rendering of a number is the parameter \<open>str_num\<close>), the missing marker becomes the text
  \<open>nan\<close>, and every text \<open>nan\<close> becomes missing.
\<close>

fun astype_str :: "(real \<Rightarrow> string) \<Rightarrow> cell \<Rightarrow> string" where
  "astype_str str_num (Num v) = str_num v"
| "astype_str str_num (Str t) = t"
| "astype_str str_num (Bool b) = (if b then ''True'' else ''False'')"
| "astype_str str_num NA = ''nan''"

definition to_categorical :: "(real \<Rightarrow> string) \<Rightarrow> cell \<Rightarrow> cell" where
  "to_categorical str_num x = (if astype_str str_num x = ''nan'' then NA else Str (astype_str str_num x))"

fun enforce_categorical :: "(real \<Rightarrow> string) \<Rightarrow> string list \<Rightarrow> cleaner \<Rightarrow> cleaner" where
  "enforce_categorical str_num [] s = s"
| "enforce_categorical str_num (col # cols) s =
     (if col \<in> set (col_names (cur s))
      then enforce_categorical str_num cols
             (log_action
                (set_cur s (set_column (cur s) col Object
                              (map (to_categorical str_num) (series (cur s) col))))
                (Enforced_categorical col))
      else enforce_categorical str_num cols s)"

definition enforce_types :: "to_numeric_fn \<Rightarrow> (real \<Rightarrow> string) \<Rightarrow> expected_types \<Rightarrow> cleaner \<Rightarrow> cleaner" where
  "enforce_types to_numeric str_num expected s =
     enforce_categorical str_num (categorical_columns expected)
       (enforce_numeric to_numeric (numeric_columns expected) s)"

subsection \<open>drop\_constant\_columns and drop\_duplicates\<close>

text \<open>\<^verbatim>\<open>drop(columns=..., inplace=True)\<close> raises KeyError, before it changes anything,
  when a label is not a column.\<close>

definition drop_constant_columns :: "string list \<Rightarrow> cleaner \<Rightarrow> error + cleaner" where
  "drop_constant_columns constant_cols s =
     (if constant_cols = [] then Inr s
      else if \<not> set constant_cols \<subseteq> set (col_names (cur s)) then Inl KeyError
      else Inr (log_action (set_cur s (drop_columns (cur s) constant_cols))
                           (Dropped_constant_columns constant_cols)))"

definition drop_duplicates :: "cleaner \<Rightarrow> cleaner" where
  "drop_duplicates s =
     (let initial_rows = length (rows (cur s));
          s1 = set_cur s (select_rows (cur s) (map Not (duplicated (cur s))));
          dropped = initial_rows - length (rows (cur s1))
      in if dropped > 0 then log_action s1 (Dropped_duplicates dropped) else s1)"

subsection \<open>handle\_missing\_values\<close>

text \<open>\<^verbatim>\<open>series.median()\<close>: NaN (\<open>None\<close>) when the column has no value.\<close>

definition median :: "cell list \<Rightarrow> real option" where
  "median xs = (if dropna_values xs = [] then None else Some (quantile (dropna_values xs) (1 / 2)))"

text \<open>\<^verbatim>\<open>series.mode()\<close> is a parameter of the model: the most frequent values of the
  column, sorted; empty when the column has no value.\<close>

type_synonym mode_fn = "cell list \<Rightarrow> cell list"

text \<open>The loop reads only the keys \<^verbatim>\<open>column\<close> and \<^verbatim>\<open>severity\<close> of a finding.\<close>

fun handle_missing_values :: "mode_fn \<Rightarrow> missing_finding list \<Rightarrow> cleaner \<Rightarrow> cleaner" where
  "handle_missing_values mode [] s = s"
| "handle_missing_values mode (col_info # rest) s =
     (let col = mf_column col_info in
      if col \<notin> set (col_names (cur s)) then handle_missing_values mode rest s
      else if mf_severity col_info = Sev_error
      then handle_missing_values mode rest
             (log_action (set_cur s (dropna_subset (cur s) col)) (Dropped_missing_rows col))
      else if is_int64_float64 (dtype_of (cur s) col)
      then (let fill_value = median (series (cur s) col)
            in handle_missing_values mode rest
                 (log_action
                    (set_cur s (map_column (cur s) col
                       (case fill_value of None \<Rightarrow> (\<lambda>x. x) | Some m \<Rightarrow> fillna (Num m))))
                    (Imputed_median col fill_value)))
      else (let fill_value = (case mode (series (cur s) col) of [] \<Rightarrow> Str ''Unknown'' | m # ms \<Rightarrow> m)
            in handle_missing_values mode rest
                 (log_action (set_cur s (map_column (cur s) col (fillna fill_value)))
                             (Imputed_mode col fill_value))))"

text \<open>The column an imputation entry of the log is about.\<close>

fun imputed_column :: "action \<Rightarrow> string option" where
  "imputed_column (Imputed_median c v) = Some c"
| "imputed_column (Imputed_mode c v) = Some c"
| "imputed_column _ = None"

subsection \<open>handle\_outliers\<close>

text \<open>The outlier summary: per column, the value of the key \<^verbatim>\<open>iqr_outliers\<close> when
  the stats dict has it (\<^verbatim>\<open>stats.get('iqr_outliers', 0)\<close>).\<close>

type_synonym outlier_summary = "(string \<times> nat option) list"

text \<open>
  The fences \<open>(q1 - 1.5 * iqr, q3 + 1.5 * iqr)\<close> of the current values of a column;
  \<open>None\<close> when the column has no value and the quantiles are NaN.
\<close>

definition iqr_fences :: "real list \<Rightarrow> (real \<times> real) option" where
  "iqr_fences vs =
     (if vs = [] then None
      else (let q1 = quantile vs (25 / 100);
                q3 = quantile vs (75 / 100);
                iqr = q3 - q1
            in Some (q1 - 15 / 10 * iqr, q3 + 15 / 10 * iqr)))"

text \<open>\<^verbatim>\<open>series.clip(lower, upper)\<close>: first raised to the lower bound, then cut at the
  upper one; NaN bounds clip nothing and a missing cell stays missing.\<close>

fun clip_cell :: "(real \<times> real) option \<Rightarrow> cell \<Rightarrow> cell" where
  "clip_cell (Some (lower, upper)) (Num v) = Num (min (max v lower) upper)"
| "clip_cell fences x = x"

text \<open>\<^verbatim>\<open>(series >= lower) & (series <= upper)\<close>: false on a missing cell and on NaN
  bounds.\<close>

fun within_fences :: "(real \<times> real) option \<Rightarrow> cell \<Rightarrow> bool" where
  "within_fences (Some (lower, upper)) (Num v) = (v \<ge> lower \<and> v \<le> upper)"
| "within_fences fences x = False"

text \<open>
  The loop over \<^verbatim>\<open>outlier_summary.items()\<close>. \<^verbatim>\<open>quantile\<close> of a column that is not
  numeric raises TypeError (the model raises for every dtype outside \<^verbatim>\<open>np.number\<close>);
  the cleaner keeps what the earlier iterations did. Clipping keeps the dtype tag of the
  column; pandas may turn int64 into float64, which the source never tells apart. A strategy
  other than \<open>clip\<close> and \<open>remove\<close> computes the fences and does nothing.
\<close>

fun handle_outliers :: "outlier_summary \<Rightarrow> string \<Rightarrow> cleaner \<Rightarrow> error option \<times> cleaner" where
  "handle_outliers [] how s = (None, s)"
| "handle_outliers ((col, stats) # rest) how s =
     (if col \<notin> set (col_names (cur s)) \<or> (case stats of None \<Rightarrow> 0 | Some n \<Rightarrow> n) = 0
      then handle_outliers rest how s
      else if \<not> is_np_number (dtype_of (cur s) col) then (Some TypeError, s)
      else (let fences = iqr_fences (dropna_values (series (cur s) col)) in
            if how = ''clip''
            then handle_outliers rest how
                   (log_action (set_cur s (map_column (cur s) col (clip_cell fences))) (Clipped col))
            else if how = ''remove''
            then handle_outliers rest how
                   (log_action
                      (rebind s ((cur s)\<lparr>rows := filter (\<lambda>r. within_fences fences
                                   (cell_at r (col_pos (columns (cur s)) col))) (rows (cur s))\<rparr>))
                      (Removed_outlier_rows col))
            else handle_outliers rest how s))"

subsection \<open>Sequences of cleaning operations\<close>

datatype operation =
    Enforce_types expected_types
  | Drop_constant_columns "string list"
  | Drop_duplicates
  | Handle_missing_values "missing_finding list"
  | Handle_outliers outlier_summary string

text \<open>One call on the cleaner: the exception it raised, if any, and the cleaner after it.\<close>

fun run_op :: "to_numeric_fn \<Rightarrow> (real \<Rightarrow> string) \<Rightarrow> mode_fn \<Rightarrow> operation \<Rightarrow> cleaner \<Rightarrow> error option \<times> cleaner" where
  "run_op to_numeric str_num mode (Enforce_types expected) s =
     (None, enforce_types to_numeric str_num expected s)"
| "run_op to_numeric str_num mode (Drop_constant_columns cs) s =
     (case drop_constant_columns cs s of Inl e \<Rightarrow> (Some e, s) | Inr s' \<Rightarrow> (None, s'))"
| "run_op to_numeric str_num mode Drop_duplicates s = (None, drop_duplicates s)"
| "run_op to_numeric str_num mode (Handle_missing_values findings) s =
     (None, handle_missing_values mode findings s)"
| "run_op to_numeric str_num mode (Handle_outliers summary how) s = handle_outliers summary how s"

text \<open>A sequence of calls; an exception ends it.\<close>

fun run_ops :: "to_numeric_fn \<Rightarrow> (real \<Rightarrow> string) \<Rightarrow> mode_fn \<Rightarrow> operation list \<Rightarrow> cleaner \<Rightarrow> error option \<times> cleaner" where
  "run_ops to_numeric str_num mode [] s = (None, s)"
| "run_ops to_numeric str_num mode (x # xs) s =
     (case run_op to_numeric str_num mode x s of
        (Some e, s') \<Rightarrow> (Some e, s')
      | (None, s') \<Rightarrow> run_ops to_numeric str_num mode xs s')"

text \<open>The cleaner's frame was allocated at address \<open>n\<close> or later.\<close>

definition owns_from :: "addr \<Rightarrow> cleaner \<Rightarrow> bool" where
  "owns_from n s = (n \<le> self_df s \<and> self_df s < next_addr s)"


text \<open>From \<open>s\<close> to \<open>s'\<close> no object below address \<open>n\<close> has changed, and the frame of
  \<open>s'\<close> is not one of them.\<close>

definition unchanged_below :: "addr \<Rightarrow> cleaner \<Rightarrow> cleaner \<Rightarrow> bool" where
  "unchanged_below n s s' = (owns_from n s' \<and> (\<forall>b<n. heap s' b = heap s b))"


section \<open>Severity classification of missingness\<close>




section \<open>Validator: the quality score and the skipped rules\<close>

lemma quality_score_bounds: "- 5 \<le> quality_score df n \<and> quality_score df n \<le> 100"
proof -
  define d where "d = real (if length (rows df) * length (columns df) = 0 then 1 else length (rows df) * length (columns df))"
  define x where "x = 100 - real n / d * 1000"
  have "0 \<le> real n / d * 1000"
    by (simp add: d_def)
  then have "x \<le> 100"
    by (simp add: x_def)
  then have "0 \<le> max 0 x \<and> max 0 x \<le> 100"
    by simp
  moreover have "quality_score df n = (if total_missing df > 0 then max 0 x - 5 else max 0 x)"
    by (simp add: quality_score_def Let_def x_def d_def)
  ultimately show ?thesis
    by (auto simp: max_def)
qed












lemma series_age:
  "series base_test_data ''age'' =
     [Num 20, Num 25, Num 30, Num 35, Num 40, Num 45, Num 50, Num 55, Num 60, Num 150]"
  by (simp add: series_def base_test_data_def cell_at_def)


lemma col_names_base: "col_names base_test_data = [''id'', ''age'', ''salary'', ''department'', ''remote'']"
  by (simp add: col_names_def base_test_data_def)

lemma total_missing_base: "total_missing base_test_data = 1"
  by (simp add: total_missing_def col_names_base isna_sum_def series_def cell_at_def)
     (simp add: base_test_data_def)

lemma dims_base: "length (rows base_test_data) = 10" "length (columns base_test_data) = 5"
  by (simp_all add: base_test_data_def)

lemma validate_all_score_range:
  assumes "validate_all query df cons = Inr res"
  shows "- 5 \<le> data_quality_score res \<and> data_quality_score res \<le> 100 \<and>
         (validation_passed res \<longleftrightarrow> data_quality_score res \<ge> 80)"
proof -
  obtain vs n where "validate_loop query df cons ([], 0) = Inr (vs, n)"
    using assms by (auto simp: validate_all_def split: sum.splits)
  with assms have "data_quality_score res = quality_score df n"
    and "validation_passed res = (quality_score df n \<ge> 80)"
    by (auto simp: validate_all_def Let_def)
  then show ?thesis
    using quality_score_bounds [of df n] by simp
qed

text \<open>
  Claim C1. The score is not confined to the interval from 0 to 100: the penalty of 5 for
  missing data is subtracted after the clamp at 0. On the test fixture (one missing salary)
  with the constraint \<open>age \<le> 18\<close>, which all ten rows violate, the clamp gives 0 and the
  returned score is -5; \<open>validation_passed\<close> is false.
\<close>

theorem validate_all_score_negative:
  "\<exists>res. validate_all query base_test_data
            [(''age'', \<lparr>rule_min = None, rule_max = Some 18, rule_relationship = None\<rparr>)] = Inr res \<and>
         data_quality_score res = - 5 \<and> \<not> validation_passed res"
proof -
  have sel: "rows (select_rows base_test_data (replicate 10 True)) = rows base_test_data"
    by (simp add: select_rows_def base_test_data_def numeral_eq_Suc)
  have cmp: "compare_series cell_gt (series base_test_data ''age'') 18 = Inr (replicate 10 True)"
    by (simp add: series_age numeral_eq_Suc)
  have cols: "columns (select_rows base_test_data (replicate 10 True)) = columns base_test_data"
    by (simp add: select_rows_def)
  have loop: "validate_loop query base_test_data
            [(''age'', \<lparr>rule_min = None, rule_max = Some 18, rule_relationship = None\<rparr>)] ([], 0) =
       Inr ([\<lparr> v_column = ''age'', v_constraint = Max_value, v_violations = 10,
                v_percentage = 100, v_expected = Le 18, v_severity = Sev_error \<rparr>], 10)"
    by (simp add: col_names_base check_min_def check_max_def check_relationship_def cmp
        df_empty_def sel cols dims_base Let_def) (simp add: base_test_data_def)
  have score: "quality_score base_test_data 10 = - 5"
    by (simp add: quality_score_def total_missing_base dims_base Let_def)
  show ?thesis
    unfolding validate_all_def loop by (simp add: score Let_def)
qed





section \<open>Outlier detector: quartiles and the IQR count\<close>

text \<open>Linear interpolation at position \<open>h\<close> of a sorted list lies between its two
  neighbours and grows with \<open>h\<close>.\<close>

lemma interp_bounds:
  fixes s :: "real list" and h :: real
  assumes srt: "sorted s" and h0: "0 \<le> h" and hn: "h \<le> real (length s) - 1"
  defines "lo \<equiv> nat \<lfloor>h\<rfloor>"
  defines "hi \<equiv> min (lo + 1) (length s - 1)"
  shows "s ! lo \<le> s ! lo + (h - real lo) * (s ! hi - s ! lo)"
    and "s ! lo + (h - real lo) * (s ! hi - s ! lo) \<le> s ! hi"
    and "lo \<le> hi" and "hi < length s"
proof -
  have n: "0 < length s"
    using h0 hn by (cases s) auto
  have lo_eq: "real lo = of_int \<lfloor>h\<rfloor>"
    using h0 by (simp add: lo_def)
  have g0: "0 \<le> h - real lo" and g1: "h - real lo \<le> 1"
    unfolding lo_eq by linarith+
  have "real lo \<le> real (length s) - 1"
    using hn unfolding lo_eq by linarith
  then have lo_n: "lo \<le> length s - 1"
    using n by linarith
  show lohi: "lo \<le> hi"
    using lo_n by (simp add: hi_def)
  show hin: "hi < length s"
    using n by (auto simp: hi_def min_def)
  have d: "s ! lo \<le> s ! hi"
    using srt lohi hin by (rule sorted_nth_mono)
  show "s ! lo \<le> s ! lo + (h - real lo) * (s ! hi - s ! lo)"
    using g0 d by simp
  have "(h - real lo) * (s ! hi - s ! lo) \<le> 1 * (s ! hi - s ! lo)"
    using g1 d by (intro mult_right_mono) auto
  then show "s ! lo + (h - real lo) * (s ! hi - s ! lo) \<le> s ! hi"
    by simp
qed

lemma interp_mono:
  fixes s :: "real list" and h1 h2 :: real
  assumes srt: "sorted s" and h0: "0 \<le> h1" and h12: "h1 \<le> h2" and hn: "h2 \<le> real (length s) - 1"
  shows "s ! nat \<lfloor>h1\<rfloor> + (h1 - real (nat \<lfloor>h1\<rfloor>)) * (s ! min (nat \<lfloor>h1\<rfloor> + 1) (length s - 1) - s ! nat \<lfloor>h1\<rfloor>)
       \<le> s ! nat \<lfloor>h2\<rfloor> + (h2 - real (nat \<lfloor>h2\<rfloor>)) * (s ! min (nat \<lfloor>h2\<rfloor> + 1) (length s - 1) - s ! nat \<lfloor>h2\<rfloor>)"
    (is "?v1 \<le> ?v2")
proof -
  let ?l1 = "nat \<lfloor>h1\<rfloor>" and ?l2 = "nat \<lfloor>h2\<rfloor>"
  let ?u1 = "min (?l1 + 1) (length s - 1)" and ?u2 = "min (?l2 + 1) (length s - 1)"
  have h1n: "h1 \<le> real (length s) - 1" and h20: "0 \<le> h2"
    using h0 h12 hn by linarith+
  have b1: "?v1 \<le> s ! ?u1"
    by (rule interp_bounds(2) [OF srt h0 h1n])
  have b2: "s ! ?l2 \<le> ?v2" "?l2 \<le> ?u2" "?u2 < length s"
    by (rule interp_bounds [OF srt h20 hn])+
  have l12: "?l1 \<le> ?l2"
    using h12 by (simp add: floor_mono nat_mono)
  show ?thesis
  proof (cases "?l1 = ?l2")
    case True
    have "s ! ?l2 \<le> s ! ?u2"
      using srt b2(2,3) by (rule sorted_nth_mono)
    then have "0 \<le> (h2 - h1) * (s ! ?u2 - s ! ?l2)"
      using h12 by simp
    moreover have "?v2 - ?v1 = (h2 - h1) * (s ! ?u2 - s ! ?l2)"
      unfolding True by (simp add: algebra_simps)
    ultimately show ?thesis by linarith
  next
    case False
    with l12 have "?l1 + 1 \<le> ?l2" by simp
    then have "?u1 \<le> ?l2" by simp
    moreover have "?l2 < length s"
      using b2(2,3) by simp
    ultimately have "s ! ?u1 \<le> s ! ?l2"
      using srt by (intro sorted_nth_mono)
    with b1 b2(1) show ?thesis by linarith
  qed
qed

lemma quantile_mono:
  assumes "vs \<noteq> []" and "0 \<le> a" and "a \<le> b"
  shows "quantile vs a \<le> quantile vs b \<or> 1 < b"
proof (cases "b \<le> 1")
  case False
  then show ?thesis by simp
next
  case True
  let ?s = "sort vs"
  have n: "0 < length ?s"
    using assms(1) by simp
  then have n1: "0 \<le> real (length ?s) - 1"
    by (simp add: Suc_leI)
  have "0 \<le> (real (length ?s) - 1) * a"
    using n1 assms(2) by simp
  moreover have "(real (length ?s) - 1) * a \<le> (real (length ?s) - 1) * b"
    using assms(3) n1 by (rule mult_left_mono)
  moreover have "(real (length ?s) - 1) * b \<le> real (length ?s) - 1"
    using n1 True by (simp add: mult_left_le)
  ultimately show ?thesis
    using interp_mono [of ?s "(real (length ?s) - 1) * a" "(real (length ?s) - 1) * b"]
    by (simp add: quantile_def Let_def)
qed

lemma iqr_nonneg:
  assumes "vs \<noteq> []"
  shows "quantile vs (25 / 100) \<le> quantile vs (75 / 100)"
  using quantile_mono [OF assms, of "25 / 100" "75 / 100"] by simp

lemma length_filter_mono:
  "(\<And>x. P x \<Longrightarrow> Q x) \<Longrightarrow> length (filter P xs) \<le> length (filter Q xs)"
  by (induction xs) auto

lemma count_iqr_outliers_antimono:
  assumes "vs \<noteq> []" and "k1 \<le> k2"
  shows "count_iqr_outliers vs k2 \<le> count_iqr_outliers vs k1"
proof -
  define q1 where "q1 = quantile vs (25 / 100)"
  define q3 where "q3 = quantile vs (75 / 100)"
  have "0 \<le> q3 - q1"
    using iqr_nonneg [OF assms(1)] by (simp add: q1_def q3_def)
  with assms(2) have le: "k1 * (q3 - q1) \<le> k2 * (q3 - q1)"
    by (rule mult_right_mono)
  have "length (filter (\<lambda>x. x < q1 - k2 * (q3 - q1) \<or> x > q3 + k2 * (q3 - q1)) vs)
      \<le> length (filter (\<lambda>x. x < q1 - k1 * (q3 - q1) \<or> x > q3 + k1 * (q3 - q1)) vs)"
    using le by (intro length_filter_mono) auto
  then show ?thesis
    by (simp add: count_iqr_outliers_def Let_def q1_def q3_def)
qed


lemma per_column_lookup:
  assumes "(c, t) \<in> set (columns df)" and "is_np_number t" and "nunique (series df c) > 1"
  shows "map_of (per_column_summary (detect_all forest df k z cont)) c = Some (detect_column df k z c)"
proof -
  have "filter (\<lambda>x. x \<noteq> NA) (series df c) \<noteq> []"
    using assms(3) by (auto simp: nunique_def)
  then obtain x where x: "x \<in> set (series df c)" "x \<noteq> NA"
    by (metis (mono_tags, lifting) filter_False)
  then have num: "c \<in> set (numeric_df_columns df)"
    using assms(1,2) by (force simp: numeric_df_columns_def)
  have "rows df \<noteq> []"
    using x by (auto simp: series_def)
  with num have "per_column_summary (detect_all forest df k z cont) =
      map (\<lambda>c. (c, detect_column df k z c))
          (filter (\<lambda>c. \<not> nunique (series df c) \<le> 1) (numeric_df_columns df))"
    by (auto simp: detect_all_def Let_def)
  moreover have "c \<in> set (filter (\<lambda>c. \<not> nunique (series df c) \<le> 1) (numeric_df_columns df))"
    using num assms(3) by simp
  ultimately show ?thesis
    by (simp add: map_of_map_restrict)
qed

text \<open>
  Claim C7. Every numeric column with more than one distinct non-missing value has a finding
  under both multipliers, and the IQR outlier count under the larger multiplier is at most
  the count under the smaller one; all other inputs are the same.
\<close>

theorem detect_all_iqr_antimono:
  assumes "k1 \<le> k2"
    and "(c, t) \<in> set (columns df)" and "is_np_number t" and "nunique (series df c) > 1"
  shows "\<exists>f1 f2. map_of (per_column_summary (detect_all forest df k1 z cont)) c = Some f1 \<and>
                 map_of (per_column_summary (detect_all forest df k2 z cont)) c = Some f2 \<and>
                 iqr_outliers f2 \<le> iqr_outliers f1"
proof -
  let ?vs = "dropna_values (series df c)"
  have "count_iqr_outliers ?vs k2 \<le> count_iqr_outliers ?vs k1"
  proof (cases "?vs = []")
    case True
    then show ?thesis by (simp add: count_iqr_outliers_def)
  next
    case False
    then show ?thesis using assms(1) by (rule count_iqr_outliers_antimono)
  qed
  then have "iqr_outliers (detect_column df k2 z c) \<le> iqr_outliers (detect_column df k1 z c)"
    by (simp add: detect_column_def Let_def)
  then show ?thesis
    using per_column_lookup [OF assms(2,3,4)] by simp
qed

lemma age_values:
  "dropna_values (series base_test_data ''age'') = [20, 25, 30, 35, 40, 45, 50, 55, 60, 150]"
  by (simp add: series_age)

lemma age_quartiles:
  "quantile [20, 25, 30, 35, 40, 45, 50, 55, 60, 150] (1 / 4) = 125 / 4"
  "quantile [20, 25, 30, 35, 40, 45, 50, 55, 60, 150] (3 / 4) = 215 / 4"
proof -
  have f1: "\<lfloor>9 / 4 :: real\<rfloor> = 2" and f3: "\<lfloor>27 / 4 :: real\<rfloor> = 6"
    by linarith+
  show "quantile [20, 25, 30, 35, 40, 45, 50, 55, 60, 150] (1 / 4) = 125 / 4"
    by (simp add: quantile_def Let_def f1)
  show "quantile [20, 25, 30, 35, 40, 45, 50, 55, 60, 150] (3 / 4) = 215 / 4"
    by (simp add: quantile_def Let_def f3)
qed

lemma age_iqr_counts:
  "count_iqr_outliers [20, 25, 30, 35, 40, 45, 50, 55, 60, 150] (3 / 2) = 1"
  "count_iqr_outliers [20, 25, 30, 35, 40, 45, 50, 55, 60, 150] 5 = 0"
  by (simp_all add: count_iqr_outliers_def Let_def age_quartiles)

lemma nunique_age: "nunique (series base_test_data ''age'') = 10"
  by (simp add: nunique_def series_age)

text \<open>
  On the \<open>age\<close> column of the test fixture the quartiles are 31.25 and 53.75: the value
  150 is outside the fences for the multiplier 1.5 and inside for the multiplier 5.
\<close>

theorem detect_all_iqr_antimono_witness:
  "(3 / 2 :: real) \<le> 5 \<and> (''age'', Int64) \<in> set (columns base_test_data) \<and> is_np_number Int64 \<and>
   nunique (series base_test_data ''age'') > 1 \<and>
   map_option iqr_outliers
     (map_of (per_column_summary (detect_all (\<lambda>c d. None) base_test_data (3 / 2) 3 (1 / 10))) ''age'') = Some 1 \<and>
   map_option iqr_outliers
     (map_of (per_column_summary (detect_all (\<lambda>c d. None) base_test_data 5 3 (1 / 10))) ''age'') = Some 0"
proof -
  have h1: "(3 / 2 :: real) \<le> 5" by simp
  have h2: "(''age'', Int64) \<in> set (columns base_test_data)"
    by (simp add: base_test_data_def)
  have h3: "is_np_number Int64" by simp
  have h4: "nunique (series base_test_data ''age'') > 1"
    by (simp add: nunique_age)
  obtain f1 f2 where
    f1: "map_of (per_column_summary (detect_all (\<lambda>c d. None) base_test_data (3 / 2) 3 (1 / 10))) ''age'' = Some f1" and
    f2: "map_of (per_column_summary (detect_all (\<lambda>c d. None) base_test_data 5 3 (1 / 10))) ''age'' = Some f2" and
    le: "iqr_outliers f2 \<le> iqr_outliers f1"
    using detect_all_iqr_antimono [OF h1 h2 h3 h4] by blast
  have "f1 = detect_column base_test_data (3 / 2) 3 ''age''"
    using f1 per_column_lookup [OF h2 h3 h4] by simp
  then have n1: "iqr_outliers f1 = 1"
    by (simp add: detect_column_def Let_def age_values age_iqr_counts)
  with le have "iqr_outliers f2 \<le> 1" by simp
  moreover have "f2 = detect_column base_test_data 5 3 ''age''"
    using f2 per_column_lookup [OF h2 h3 h4] by simp
  then have "iqr_outliers f2 = 0"
    by (simp add: detect_column_def Let_def age_values age_iqr_counts)
  ultimately show ?thesis
    using h1 h2 h3 h4 f1 f2 n1 by simp
qed

section \<open>Profiler: statistics of a column without values\<close>

lemma profile_column_no_values:
  assumes "rows df \<noteq> []" and "c \<in> set numeric" and "dropna_values (series df c) = []"
  shows "cs_numeric (profile_column df numeric constant c) =
           Some \<lparr> ns_mean = NaN, ns_std = NaN, ns_min = NaN, ns_max = NaN, ns_median = NaN \<rparr>"
  using assms
  by (simp add: profile_column_def Let_def series_def series_mean_def series_std_def
      series_min_def series_max_def series_median_def)

lemma profile_column_no_rows:
  assumes "rows df = []" and "c \<in> set numeric"
  shows "cs_numeric (profile_column df numeric constant c) =
           Some \<lparr> ns_mean = Absent, ns_std = Absent, ns_min = Absent, ns_max = Absent,
                  ns_median = Absent \<rparr>"
  using assms by (simp add: profile_column_def Let_def series_def)

text \<open>
  Claim C2. The guard \<^verbatim>\<open>col_data.empty\<close> looks at the column with its missing cells,
  so it only catches a frame without rows (\<open>profile_column_no_rows\<close>). For a numeric column
  with rows that are all missing, the five statistics are reported as NaN, not as absent
  (\<open>profile_column_no_values\<close>); here on the frame with the all-missing column \<open>x\<close>.
\<close>

theorem generate_profile_all_missing_column:
  "map_option cs_numeric (map_of (column_profiles (generate_profile all_missing_frame)) ''x'') =
     Some (Some \<lparr> ns_mean = NaN, ns_std = NaN, ns_min = NaN, ns_max = NaN, ns_median = NaN \<rparr>)"
proof -
  have "series all_missing_frame ''x'' = [NA, NA]"
    by (simp add: series_def all_missing_frame_def cell_at_def)
  then have "cs_numeric (profile_column all_missing_frame [''x''] cs ''x'') =
     Some \<lparr> ns_mean = NaN, ns_std = NaN, ns_min = NaN, ns_max = NaN, ns_median = NaN \<rparr>" for cs
    by (intro profile_column_no_values) (simp_all add: all_missing_frame_def)
  then show ?thesis
    by (simp add: generate_profile_def Let_def col_names_def) (simp add: all_missing_frame_def)
qed

section \<open>Outlier detector: no numeric data, and columns without variance\<close>

text \<open>
  Claim C6. The result carries the error marker exactly when no numeric column has a
  non-missing cell, and then it has no per-column finding (and no ML outlier); in every
  case a column with at most one distinct non-missing value has no finding. Raising is not a
  possible outcome of \<open>detect_all\<close>: the only call of the source that can raise is the
  isolation forest, a parameter here whose failure (\<open>None\<close>) leaves the count at 0.
\<close>

theorem detect_all_no_numeric_data:
  "(or_error (detect_all forest df k z cont) \<noteq> None \<longleftrightarrow>
      \<not> (\<exists>(c, t) \<in> set (columns df). is_np_number t \<and> (\<exists>x \<in> set (series df c). x \<noteq> NA))) \<and>
   (or_error (detect_all forest df k z cont) \<noteq> None \<longrightarrow>
      per_column_summary (detect_all forest df k z cont) = [] \<and>
      total_ml_outliers (detect_all forest df k z cont) = 0) \<and>
   (\<forall>c. nunique (series df c) \<le> 1 \<longrightarrow>
      c \<notin> fst ` set (per_column_summary (detect_all forest df k z cont)))"
proof -
  have rows: "numeric_df_columns df = []" if "rows df = []"
    using that by (simp add: numeric_df_columns_def series_def)
  have "numeric_df_columns df = [] \<longleftrightarrow>
      \<not> (\<exists>(c, t) \<in> set (columns df). is_np_number t \<and> (\<exists>x \<in> set (series df c). x \<noteq> NA))"
    by (auto simp: numeric_df_columns_def filter_empty_conv)
  then have a: "or_error (detect_all forest df k z cont) \<noteq> None \<longleftrightarrow>
      \<not> (\<exists>(c, t) \<in> set (columns df). is_np_number t \<and> (\<exists>x \<in> set (series df c). x \<noteq> NA))"
    using rows by (auto simp: detect_all_def Let_def)
  have b: "per_column_summary (detect_all forest df k z cont) = [] \<and>
      total_ml_outliers (detect_all forest df k z cont) = 0"
    if "or_error (detect_all forest df k z cont) \<noteq> None"
    using that by (auto simp: detect_all_def Let_def split: if_splits)
  have c: "c \<notin> fst ` set (per_column_summary (detect_all forest df k z cont))"
    if "nunique (series df c) \<le> 1" for c
    using that by (auto simp: detect_all_def Let_def)
  show ?thesis
    using a b c by blast
qed

text \<open>
  On the frame with the all-missing numeric column the error marker is set; on the frame
  with a constant and a varying numeric column only the varying one has a finding.
\<close>

theorem detect_all_no_numeric_data_witness:
  "or_error (detect_all (\<lambda>c d. None) all_missing_frame (3 / 2) 3 (1 / 10)) \<noteq> None \<and>
   per_column_summary (detect_all (\<lambda>c d. None) all_missing_frame (3 / 2) 3 (1 / 10)) = [] \<and>
   or_error (detect_all (\<lambda>c d. None) constant_column_frame (3 / 2) 3 (1 / 10)) = None \<and>
   nunique (series constant_column_frame ''k'') \<le> 1 \<and>
   ''k'' \<notin> fst ` set (per_column_summary (detect_all (\<lambda>c d. None) constant_column_frame (3 / 2) 3 (1 / 10))) \<and>
   ''v'' \<in> fst ` set (per_column_summary (detect_all (\<lambda>c d. None) constant_column_frame (3 / 2) 3 (1 / 10)))"
proof -
  have sx: "series all_missing_frame ''x'' = [NA, NA]"
    and ss: "series all_missing_frame ''s'' = [Str ''a'', Str ''b'']"
    by (simp_all add: series_def all_missing_frame_def cell_at_def)
  have cols_am: "columns all_missing_frame = [(''x'', Float64), (''s'', Object)]"
    by (simp add: all_missing_frame_def)
  have cols_cc: "columns constant_column_frame = [(''k'', Int64), (''v'', Float64), (''s'', Object)]"
    by (simp add: constant_column_frame_def)
  have none: "\<not> (\<exists>(c, t) \<in> set (columns all_missing_frame).
                 is_np_number t \<and> (\<exists>x \<in> set (series all_missing_frame c). x \<noteq> NA))"
    using sx by (simp add: cols_am)
  have e: "or_error (detect_all (\<lambda>c d. None) all_missing_frame (3 / 2) 3 (1 / 10)) \<noteq> None"
    using none detect_all_no_numeric_data [of "\<lambda>c d. None" all_missing_frame "3 / 2" 3 "1 / 10"]
    by blast
  then have p: "per_column_summary (detect_all (\<lambda>c d. None) all_missing_frame (3 / 2) 3 (1 / 10)) = []"
    using detect_all_no_numeric_data [of "\<lambda>c d. None" all_missing_frame "3 / 2" 3 "1 / 10"]
    by blast
  have sk: "series constant_column_frame ''k'' = [Num 7, Num 7, Num 7]"
    and sv: "series constant_column_frame ''v'' = [Num 1, Num 2, NA]"
    by (simp_all add: series_def constant_column_frame_def cell_at_def)
  have some: "\<exists>(c, t) \<in> set (columns constant_column_frame).
                 is_np_number t \<and> (\<exists>x \<in> set (series constant_column_frame c). x \<noteq> NA)"
    using sk by (simp add: cols_cc)
  have e': "or_error (detect_all (\<lambda>c d. None) constant_column_frame (3 / 2) 3 (1 / 10)) = None"
    using some detect_all_no_numeric_data [of "\<lambda>c d. None" constant_column_frame "3 / 2" 3 "1 / 10"]
    by blast
  have nk: "nunique (series constant_column_frame ''k'') \<le> 1"
    by (simp add: nunique_def sk)
  have k: "''k'' \<notin> fst ` set (per_column_summary (detect_all (\<lambda>c d. None) constant_column_frame (3 / 2) 3 (1 / 10)))"
    using nk detect_all_no_numeric_data [of "\<lambda>c d. None" constant_column_frame "3 / 2" 3 "1 / 10"]
    by blast
  have "map_of (per_column_summary (detect_all (\<lambda>c d. None) constant_column_frame (3 / 2) 3 (1 / 10))) ''v''
        = Some (detect_column constant_column_frame (3 / 2) 3 ''v'')"
  proof (rule per_column_lookup [of _ Float64])
    show "(''v'', Float64) \<in> set (columns constant_column_frame)"
      by (simp add: cols_cc)
    show "is_np_number Float64"
      by simp
    show "1 < nunique (series constant_column_frame ''v'')"
      by (simp add: nunique_def sv)
  qed
  then have v: "''v'' \<in> fst ` set (per_column_summary (detect_all (\<lambda>c d. None) constant_column_frame (3 / 2) 3 (1 / 10)))"
    by (metis domI dom_map_of_conv_image_fst)
  show ?thesis
    using e p e' nk k v by blast
qed

section \<open>Cleaner: dropping duplicates twice\<close>

lemma kept_rows_distinct:
  "distinct (map snd (filter fst (zip (map Not (duplicated_from seen rs)) rs))) \<and>
   set (map snd (filter fst (zip (map Not (duplicated_from seen rs)) rs))) \<inter> set seen = {} \<and>
   length (map snd (filter fst (zip (map Not (duplicated_from seen rs)) rs))) \<le> length rs"
proof (induction rs arbitrary: seen)
  case Nil
  show ?case by simp
next
  case (Cons r rs)
  from Cons.IH [of "r # seen"] show ?case
    by (auto simp: le_SucI)
qed

lemma duplicated_from_distinct:
  "distinct rs \<Longrightarrow> set rs \<inter> set seen = {} \<Longrightarrow>
   duplicated_from seen rs = replicate (length rs) False"
  by (induction rs arbitrary: seen) auto

lemma select_all:
  "map snd (filter fst (zip (map Not (replicate (length rs) False)) rs)) = rs"
  by (induction rs) auto

lemma select_not_duplicated_idem:
  "select_rows (select_rows df (map Not (duplicated df)))
     (map Not (duplicated (select_rows df (map Not (duplicated df))))) =
   select_rows df (map Not (duplicated df))"
proof -
  let ?ks = "map snd (filter fst (zip (map Not (duplicated_from [] (rows df))) (rows df)))"
  have "duplicated_from [] ?ks = replicate (length ?ks) False"
    using kept_rows_distinct [of "[]" "rows df"] by (intro duplicated_from_distinct) auto
  then have "map snd (filter fst (zip (map Not (duplicated_from [] ?ks)) ?ks)) = ?ks"
    by (simp only: select_all)
  then show ?thesis
    by (simp add: select_rows_def duplicated_def)
qed

lemma cur_set_cur [simp]: "cur (set_cur s df) = df"
  by (simp add: cur_def set_cur_def)

lemma cur_log_action [simp]: "cur (log_action s a) = cur s"
  by (simp add: cur_def log_action_def)

lemma set_cur_same: "set_cur s (cur s) = s"
  by (simp add: cur_def set_cur_def)

lemma history_set_cur [simp]: "history (set_cur s df) = history s"
  by (simp add: set_cur_def)

lemma history_log_action [simp]: "history (log_action s a) = history s @ [a]"
  by (simp add: log_action_def)

lemma cur_cleaner_init [simp]: "cur (cleaner_init h n a) = h a"
  by (simp add: cur_def cleaner_init_def)

lemma history_cleaner_init [simp]: "history (cleaner_init h n a) = []"
  by (simp add: cleaner_init_def)

lemma history_drop_duplicates:
  "history (drop_duplicates s) =
     (if length (rows (select_rows (cur s) (map Not (duplicated (cur s))))) < length (rows (cur s))
      then history s @ [Dropped_duplicates
             (length (rows (cur s)) - length (rows (select_rows (cur s) (map Not (duplicated (cur s))))))]
      else history s)"
  by (simp add: drop_duplicates_def Let_def)

lemma cur_drop_duplicates:
  "cur (drop_duplicates s) = select_rows (cur s) (map Not (duplicated (cur s)))"
  by (simp add: drop_duplicates_def Let_def)

text \<open>
  Claim C9. A second \<open>drop_duplicates\<close> right after the first changes nothing: the cleaner
  is the same, so its frame has the same rows (and row count) and the action log has no new
  entry.
\<close>

theorem drop_duplicates_idempotent:
  "drop_duplicates (drop_duplicates s) = drop_duplicates s \<and>
   rows (cur (drop_duplicates (drop_duplicates s))) = rows (cur (drop_duplicates s)) \<and>
   length (rows (cur (drop_duplicates (drop_duplicates s)))) = length (rows (cur (drop_duplicates s))) \<and>
   history (drop_duplicates (drop_duplicates s)) = history (drop_duplicates s)"
proof -
  define s1 where "s1 = drop_duplicates s"
  have "select_rows (cur s1) (map Not (duplicated (cur s1))) = cur s1"
    unfolding s1_def cur_drop_duplicates by (rule select_not_duplicated_idem)
  then have "drop_duplicates s1 = s1"
    by (simp add: drop_duplicates_def [of s1] Let_def set_cur_same)
  then show ?thesis
    by (simp add: s1_def)
qed


text \<open>
  On a frame with two repeated rows, the first call drops two rows and logs it; the second
  call leaves the two remaining rows and the single log entry.
\<close>

theorem drop_duplicates_idempotent_witness:
  "rows (cur (drop_duplicates (cleaner_init (\<lambda>a. duplicate_rows_frame) (Suc 0) 0))) =
     [[Num 1, Str ''x''], [Num 2, NA]] \<and>
   history (drop_duplicates (cleaner_init (\<lambda>a. duplicate_rows_frame) (Suc 0) 0)) = [Dropped_duplicates 2] \<and>
   rows (cur (drop_duplicates (drop_duplicates (cleaner_init (\<lambda>a. duplicate_rows_frame) (Suc 0) 0)))) =
     [[Num 1, Str ''x''], [Num 2, NA]] \<and>
   history (drop_duplicates (drop_duplicates (cleaner_init (\<lambda>a. duplicate_rows_frame) (Suc 0) 0))) =
     [Dropped_duplicates 2]"
proof -
  let ?s = "cleaner_init (\<lambda>a. duplicate_rows_frame) (Suc 0) 0"
  have c: "cur ?s = duplicate_rows_frame"
    by simp
  have d: "duplicated duplicate_rows_frame = [False, False, True, True]"
    by (simp add: duplicated_def duplicate_rows_frame_def)
  have r: "rows (select_rows duplicate_rows_frame [True, True, False, False]) =
             [[Num 1, Str ''x''], [Num 2, NA]]"
    by (simp add: select_rows_def duplicate_rows_frame_def)
  have n: "length (rows duplicate_rows_frame) = 4"
    by (simp add: duplicate_rows_frame_def)
  have one: "rows (cur (drop_duplicates ?s)) = [[Num 1, Str ''x''], [Num 2, NA]]"
    by (simp add: cur_drop_duplicates c d r)
  have h: "history (drop_duplicates ?s) = [Dropped_duplicates 2]"
    by (simp add: history_drop_duplicates d r n)
  show ?thesis
    using one h drop_duplicates_idempotent [of ?s] by simp
qed

section \<open>Cleaner: the caller's frame is never written\<close>

text \<open>Each of the three ways the cleaner touches the store keeps every object below the
  address of its own copy.\<close>

lemma unchanged_set_cur:
  "unchanged_below n s0 s \<Longrightarrow> unchanged_below n s0 (set_cur s df)"
  by (auto simp: unchanged_below_def owns_from_def set_cur_def)

lemma unchanged_log_action:
  "unchanged_below n s0 s \<Longrightarrow> unchanged_below n s0 (log_action s a)"
  by (auto simp: unchanged_below_def owns_from_def log_action_def)

lemma unchanged_rebind:
  "unchanged_below n s0 s \<Longrightarrow> unchanged_below n s0 (rebind s df)"
  by (auto simp: unchanged_below_def owns_from_def rebind_def)

lemmas unchanged_steps = unchanged_set_cur unchanged_log_action unchanged_rebind

lemma unchanged_enforce_numeric:
  "unchanged_below n s0 s \<Longrightarrow> unchanged_below n s0 (enforce_numeric tn cols s)"
  by (induction cols arbitrary: s) (simp_all add: Let_def unchanged_steps)

lemma unchanged_enforce_categorical:
  "unchanged_below n s0 s \<Longrightarrow> unchanged_below n s0 (enforce_categorical sn cols s)"
  by (induction cols arbitrary: s) (simp_all add: unchanged_steps)

lemma unchanged_enforce_types:
  "unchanged_below n s0 s \<Longrightarrow> unchanged_below n s0 (enforce_types tn sn expected s)"
  by (simp add: enforce_types_def unchanged_enforce_numeric unchanged_enforce_categorical)

lemma unchanged_drop_constant_columns:
  "unchanged_below n s0 s \<Longrightarrow> drop_constant_columns cs s = Inr s' \<Longrightarrow> unchanged_below n s0 s'"
  by (auto simp: drop_constant_columns_def unchanged_steps split: if_splits)

lemma unchanged_drop_duplicates:
  "unchanged_below n s0 s \<Longrightarrow> unchanged_below n s0 (drop_duplicates s)"
  by (simp add: drop_duplicates_def Let_def unchanged_steps)

lemma unchanged_handle_missing_values:
  "unchanged_below n s0 s \<Longrightarrow> unchanged_below n s0 (handle_missing_values md fs s)"
  by (induction fs arbitrary: s) (simp_all add: Let_def unchanged_steps)

lemma unchanged_handle_outliers:
  "unchanged_below n s0 s \<Longrightarrow> unchanged_below n s0 (snd (handle_outliers summary how s))"
proof (induction summary arbitrary: s how)
  case Nil
  then show ?case by simp
next
  case (Cons x summary)
  obtain col st where x: "x = (col, st)" by (cases x)
  note step = Cons.IH [OF unchanged_log_action, OF unchanged_set_cur, OF Cons.prems]
    Cons.IH [OF unchanged_log_action, OF unchanged_rebind, OF Cons.prems]
    Cons.IH [OF Cons.prems]
  show ?case
    unfolding x using Cons.prems
    by (simp add: Let_def step)
qed

lemma unchanged_run_op:
  "unchanged_below n s0 s \<Longrightarrow> unchanged_below n s0 (snd (run_op tn sn md x s))"
proof (cases x)
  case (Drop_constant_columns cs)
  then show "unchanged_below n s0 s \<Longrightarrow> ?thesis"
    by (auto simp: unchanged_drop_constant_columns split: sum.splits)
qed (simp_all add: unchanged_enforce_types unchanged_drop_duplicates
       unchanged_handle_missing_values unchanged_handle_outliers)

lemma unchanged_run_ops:
  "unchanged_below n s0 s \<Longrightarrow> unchanged_below n s0 (snd (run_ops tn sn md xs s))"
proof (induction xs arbitrary: s)
  case Nil
  then show ?case by simp
next
  case (Cons x xs)
  have step: "unchanged_below n s0 (snd (run_op tn sn md x s))"
    using Cons.prems by (rule unchanged_run_op)
  obtain e s' where r: "run_op tn sn md x s = (e, s')"
    by (cases "run_op tn sn md x s")
  with step have s': "unchanged_below n s0 s'" by simp
  show ?case
  proof (cases e)
    case None
    then show ?thesis using r Cons.IH [OF s'] by simp
  next
    case (Some err)
    then show ?thesis using r s' by simp
  qed
qed

text \<open>
  Claim C8. The cleaner is built for the frame at address \<open>a\<close> of a store whose objects all
  lie below \<open>n\<close>. After any sequence of cleaning operations, with any arguments, whether it
  runs to its end or stops at an exception, the frame at \<open>a\<close> (and every other object that
  existed before) is what it was, and the cleaner's \<^verbatim>\<open>self.df\<close> is another object.
\<close>

theorem original_unchanged:
  assumes "a < n"
  shows "heap (snd (run_ops to_numeric str_num mode ops (cleaner_init h n a))) a = h a \<and>
         (\<forall>b<n. heap (snd (run_ops to_numeric str_num mode ops (cleaner_init h n a))) b = h b) \<and>
         self_df (snd (run_ops to_numeric str_num mode ops (cleaner_init h n a))) \<noteq> a"
proof -
  let ?s0 = "cleaner_init h n a"
  have "unchanged_below n ?s0 ?s0"
    by (simp add: unchanged_below_def owns_from_def cleaner_init_def)
  then have u: "unchanged_below n ?s0 (snd (run_ops to_numeric str_num mode ops ?s0))"
    by (rule unchanged_run_ops)
  have init: "heap ?s0 b = h b" if "b < n" for b
    using that by (simp add: cleaner_init_def)
  have all: "\<forall>b<n. heap (snd (run_ops to_numeric str_num mode ops ?s0)) b = h b"
    using u init by (simp add: unchanged_below_def)
  moreover have "self_df (snd (run_ops to_numeric str_num mode ops ?s0)) \<noteq> a"
    using u assms by (auto simp: unchanged_below_def owns_from_def)
  ultimately show ?thesis
    using assms by blast
qed


lemma series_salary:
  "series base_test_data ''salary'' =
     [Num 50000, Num 52000, Num 54000, Num 56000, Num 58000, Num 60000, Num 62000,
      Num 64000, Num 66000, NA]"
  by (simp add: series_def base_test_data_def cell_at_def)

lemma median_salary: "median (series base_test_data ''salary'') = Some 58000"
proof -
  have "\<lfloor>4 :: real\<rfloor> = 4" by simp
  then show ?thesis
    by (simp add: median_def series_salary quantile_def Let_def)
qed

lemma dtype_salary: "dtype_of base_test_data ''salary'' = Float64"
  by (simp add: dtype_of_def base_test_data_def)

lemma series_salary_filled:
  "series (map_column base_test_data ''salary'' (fillna (Num 58000))) ''salary'' =
     [Num 50000, Num 52000, Num 54000, Num 56000, Num 58000, Num 60000, Num 62000,
      Num 64000, Num 66000, Num 58000]"
  by (simp add: series_def map_column_def Let_def base_test_data_def cell_at_def fillna_def)

text \<open>
  On the test fixture: after imputing the missing salary the cleaner's copy holds the median
  58000 in the last row, and the fixture itself is unchanged.
\<close>

theorem original_unchanged_witness:
  "(0 :: nat) < Suc 0 \<and>
   heap (snd (run_ops (\<lambda>t vs. (t, vs)) (\<lambda>v. ''0'') (\<lambda>xs. [])
           [Drop_constant_columns [],
            Handle_missing_values
              [\<lparr> mf_column = ''salary'', mf_missing_count = 1, mf_missing_percentage = 10,
                  mf_severity = Sev_warning, mf_dtype = Float64, mf_strategies = [] \<rparr>]]
           (cleaner_init (\<lambda>a. base_test_data) (Suc 0) 0))) 0 = base_test_data \<and>
   series (cur (snd (run_ops (\<lambda>t vs. (t, vs)) (\<lambda>v. ''0'') (\<lambda>xs. [])
           [Drop_constant_columns [],
            Handle_missing_values
              [\<lparr> mf_column = ''salary'', mf_missing_count = 1, mf_missing_percentage = 10,
                  mf_severity = Sev_warning, mf_dtype = Float64, mf_strategies = [] \<rparr>]]
           (cleaner_init (\<lambda>a. base_test_data) (Suc 0) 0)))) ''salary'' =
     [Num 50000, Num 52000, Num 54000, Num 56000, Num 58000, Num 60000, Num 62000,
      Num 64000, Num 66000, Num 58000]"
proof -
  let ?f = "\<lparr> mf_column = ''salary'', mf_missing_count = 1, mf_missing_percentage = 10,
                  mf_severity = Sev_warning, mf_dtype = Float64, mf_strategies = [] \<rparr>"
  let ?s0 = "cleaner_init (\<lambda>a. base_test_data) (Suc 0) 0"
  let ?run = "run_ops (\<lambda>t vs. (t, vs)) (\<lambda>v. ''0'') (\<lambda>xs. [])
           [Drop_constant_columns [], Handle_missing_values [?f]] ?s0"
  have h: "(0 :: nat) < Suc 0" by simp
  have orig: "heap (snd ?run) 0 = base_test_data"
    using original_unchanged [OF h, of "\<lambda>t vs. (t, vs)" "\<lambda>v. ''0''" "\<lambda>xs. []"
        "[Drop_constant_columns [], Handle_missing_values [?f]]" "\<lambda>a. base_test_data"]
    by simp
  have names: "''salary'' \<in> set (col_names base_test_data)"
    by (simp add: col_names_def base_test_data_def)
  have "cur (handle_missing_values (\<lambda>xs. []) [?f] ?s0) =
          map_column base_test_data ''salary'' (fillna (Num 58000))"
    by (simp add: Let_def names dtype_salary median_salary)
  then have "series (cur (snd ?run)) ''salary'' =
     [Num 50000, Num 52000, Num 54000, Num 56000, Num 58000, Num 60000, Num 62000,
      Num 64000, Num 66000, Num 58000]"
    by (simp add: drop_constant_columns_def series_salary_filled)
  with h orig show ?thesis by blast
qed

section \<open>Cleaner: the log of imputations\<close>

lemma col_names_map_column [simp]: "col_names (map_column df c f) = col_names df"
  by (simp add: col_names_def map_column_def Let_def)

lemma col_names_dropna_subset [simp]: "col_names (dropna_subset df c) = col_names df"
  by (simp add: col_names_def dropna_subset_def)

lemma map_filter_app:
  "List.map_filter g (xs @ ys) = List.map_filter g xs @ List.map_filter g ys"
  by (simp add: map_filter_def)

lemma imputed_log:
  "List.map_filter imputed_column (history (handle_missing_values md fs s)) =
     List.map_filter imputed_column (history s) @
     map mf_column (filter (\<lambda>f. mf_column f \<in> set (col_names (cur s)) \<and> mf_severity f \<noteq> Sev_error) fs)"
proof (induction fs arbitrary: s)
  case Nil
  show ?case by simp
next
  case (Cons f fs)
  show ?case
    by (simp add: Let_def Cons.IH map_filter_app map_filter_simps)
qed

lemma map_column_id:
  assumes "\<forall>r \<in> set (rows df). f (cell_at r (col_pos (columns df) c)) = cell_at r (col_pos (columns df) c)"
  shows "map_column df c f = df"
proof -
  have "r[col_pos (columns df) c := f (cell_at r (col_pos (columns df) c))] = r"
    if "r \<in> set (rows df)" for r
    using assms that by (auto simp: cell_at_def list_update_beyond not_less)
  then have "map (\<lambda>r. r[col_pos (columns df) c := f (cell_at r (col_pos (columns df) c))]) (rows df) = rows df"
    by (simp add: map_idI)
  then show ?thesis
    by (simp add: map_column_def Let_def)
qed

lemma no_missing_cells:
  assumes "isna_sum (series df c) = 0" and "r \<in> set (rows df)"
  shows "cell_at r (col_pos (columns df) c) \<noteq> NA"
proof -
  have "filter (\<lambda>x. x = NA) (series df c) = []"
    using assms(1) by (simp add: isna_sum_def)
  then have "\<forall>x \<in> set (series df c). x \<noteq> NA"
    by (simp add: filter_empty_conv)
  then show ?thesis
    using assms(2) by (simp add: series_def)
qed

lemma imputation_without_effect:
  assumes "mf_column f \<in> set (col_names (cur s))" and "mf_severity f \<noteq> Sev_error"
    and "isna_sum (series (cur s) (mf_column f)) = 0"
  shows "cur (handle_missing_values md [f] s) = cur s \<and>
         (\<exists>a. history (handle_missing_values md [f] s) = history s @ [a] \<and>
              imputed_column a = Some (mf_column f))"
proof -
  have "map_column (cur s) (mf_column f) (fillna v) = cur s" for v
    using no_missing_cells [OF assms(3)] by (intro map_column_id) (simp add: fillna_def)
  moreover have "map_column (cur s) (mf_column f) (\<lambda>x. x) = cur s"
    by (intro map_column_id) simp
  ultimately show ?thesis
    using assms(1,2) by (simp add: Let_def split: option.split)
qed

text \<open>
  Claim C10. The imputation entries that \<open>handle_missing_values\<close> appends to the log are,
  in order, one for every finding whose column is in the working copy and whose severity is
  not \<open>error\<close>. An entry is appended also for a finding whose column has no missing cell,
  where the frame stays exactly as it was.
\<close>

theorem handle_missing_values_log:
  "List.map_filter imputed_column (history (handle_missing_values mode findings s)) =
     List.map_filter imputed_column (history s) @
     map mf_column (filter (\<lambda>f. mf_column f \<in> set (col_names (cur s)) \<and> mf_severity f \<noteq> Sev_error)
                           findings) \<and>
   (mf_column f \<in> set (col_names (cur s)) \<and> mf_severity f \<noteq> Sev_error \<and>
    isna_sum (series (cur s) (mf_column f)) = 0 \<longrightarrow>
      cur (handle_missing_values mode [f] s) = cur s \<and>
      (\<exists>a. history (handle_missing_values mode [f] s) = history s @ [a] \<and>
           imputed_column a = Some (mf_column f)))"
  using imputed_log [of mode findings s] imputation_without_effect [of f s mode] by blast

lemma series_id:
  "series base_test_data ''id'' =
     [Num 1, Num 2, Num 3, Num 4, Num 5, Num 6, Num 7, Num 8, Num 9, Num 10]"
  by (simp add: series_def base_test_data_def cell_at_def)

lemma median_id: "median (series base_test_data ''id'') = Some (11 / 2)"
proof -
  have "\<lfloor>9 / 2 :: real\<rfloor> = 4" by linarith
  then show ?thesis
    by (simp add: median_def series_id quantile_def Let_def)
qed

text \<open>
  On the test fixture the column \<open>id\<close> has no missing value; a finding of severity
  \<open>none\<close> for it leaves the frame as it is and logs an imputation with the median 5.5.
\<close>

theorem handle_missing_values_log_witness:
  "''id'' \<in> set (col_names (cur (cleaner_init (\<lambda>a. base_test_data) (Suc 0) 0))) \<and>
   isna_sum (series (cur (cleaner_init (\<lambda>a. base_test_data) (Suc 0) 0)) ''id'') = 0 \<and>
   cur (handle_missing_values (\<lambda>xs. [])
          [\<lparr> mf_column = ''id'', mf_missing_count = 0, mf_missing_percentage = 0,
              mf_severity = Sev_none, mf_dtype = Int64, mf_strategies = [] \<rparr>]
          (cleaner_init (\<lambda>a. base_test_data) (Suc 0) 0)) = base_test_data \<and>
   history (handle_missing_values (\<lambda>xs. [])
          [\<lparr> mf_column = ''id'', mf_missing_count = 0, mf_missing_percentage = 0,
              mf_severity = Sev_none, mf_dtype = Int64, mf_strategies = [] \<rparr>]
          (cleaner_init (\<lambda>a. base_test_data) (Suc 0) 0)) = [Imputed_median ''id'' (Some (11 / 2))]"
proof -
  let ?f = "\<lparr> mf_column = ''id'', mf_missing_count = 0, mf_missing_percentage = 0,
              mf_severity = Sev_none, mf_dtype = Int64, mf_strategies = [] \<rparr>"
  let ?s0 = "cleaner_init (\<lambda>a. base_test_data) (Suc 0) 0"
  have names: "''id'' \<in> set (col_names (cur ?s0))"
    by (simp add: col_names_def base_test_data_def)
  have none: "isna_sum (series (cur ?s0) ''id'') = 0"
    by (simp add: series_id isna_sum_def)
  have same: "cur (handle_missing_values (\<lambda>xs. []) [?f] ?s0) = base_test_data"
    using names none handle_missing_values_log [of "\<lambda>xs. []" "[]" ?s0 ?f] by simp
  have dt: "dtype_of base_test_data ''id'' = Int64"
    by (simp add: dtype_of_def base_test_data_def)
  have "''id'' \<in> set (col_names base_test_data)"
    using names by simp
  then have "history (handle_missing_values (\<lambda>xs. []) [?f] ?s0) = [Imputed_median ''id'' (Some (11 / 2))]"
    by (simp add: Let_def dt median_id)
  with names none same show ?thesis by blast
qed

section \<open>Cleaner: clipping outliers to the IQR fences\<close>

lemma col_pos_neq:
  "c \<in> set (map fst cols) \<Longrightarrow> c \<noteq> c' \<Longrightarrow> col_pos cols c \<noteq> col_pos cols c'"
proof (induction cols)
  case Nil
  then show ?case by simp
next
  case (Cons a cols)
  obtain n t where a: "a = (n, t)" by (cases a)
  show ?case
  proof (cases "n = c")
    case True
    then show ?thesis using Cons.prems(2) a by simp
  next
    case False
    with Cons.prems a have "c \<in> set (map fst cols)" by auto
    then have "col_pos cols c \<noteq> col_pos cols c'"
      using Cons.prems(2) by (rule Cons.IH)
    then show ?thesis using False a by simp
  qed
qed

lemma cell_at_update_same:
  "f NA = NA \<Longrightarrow> cell_at (r[i := f (cell_at r i)]) i = f (cell_at r i)"
  by (simp add: cell_at_def)

lemma cell_at_update_other:
  "i \<noteq> j \<Longrightarrow> cell_at (r[i := x]) j = cell_at r j"
  by (simp add: cell_at_def)

lemma columns_map_column [simp]: "columns (map_column df c f) = columns df"
  by (simp add: map_column_def Let_def)

lemma dtype_of_map_column [simp]: "dtype_of (map_column df c f) c' = dtype_of df c'"
  by (simp add: dtype_of_def)

lemma series_map_column_same:
  "f NA = NA \<Longrightarrow> series (map_column df c f) c = map f (series df c)"
  by (simp add: series_def map_column_def Let_def cell_at_update_same)

lemma series_map_column_other:
  assumes "c \<in> set (col_names df)" and "c \<noteq> c'"
  shows "series (map_column df c f) c' = series df c'"
proof -
  have "col_pos (columns df) c \<noteq> col_pos (columns df) c'"
    using assms by (intro col_pos_neq) (simp_all add: col_names_def)
  then show ?thesis
    by (simp add: series_def map_column_def Let_def cell_at_update_other)
qed

lemma clip_cell_NA [simp]: "clip_cell fences NA = NA"
  by (cases fences) auto

lemma clip_loop:
  assumes "distinct (map fst summary)"
    and "\<forall>(c, st) \<in> set summary.
           c \<in> set (col_names (cur s)) \<and> (case st of None \<Rightarrow> 0 | Some n \<Rightarrow> n) \<noteq> 0 \<longrightarrow>
           is_np_number (dtype_of (cur s) c)"
  shows "fst (handle_outliers summary ''clip'' s) = None \<and>
         col_names (cur (snd (handle_outliers summary ''clip'' s))) = col_names (cur s) \<and>
         (\<forall>c. series (cur (snd (handle_outliers summary ''clip'' s))) c =
              (if c \<in> set (col_names (cur s)) \<and> (\<exists>n>0. (c, Some n) \<in> set summary)
               then map (clip_cell (iqr_fences (dropna_values (series (cur s) c)))) (series (cur s) c)
               else series (cur s) c))"
  using assms
proof (induction summary arbitrary: s)
  case Nil
  show ?case by simp
next
  case (Cons x summary)
  obtain col st where x: "x = (col, st)" by (cases x)
  have dist: "distinct (map fst summary)" and fresh: "col \<notin> fst ` set summary"
    using Cons.prems(1) x by auto
  have fresh': "(col, Some n) \<notin> set summary" for n
    using fresh by force
  show ?case
  proof (cases "col \<notin> set (col_names (cur s)) \<or> (case st of None \<Rightarrow> 0 | Some n \<Rightarrow> n) = 0")
    case True
    have step: "handle_outliers (x # summary) ''clip'' s = handle_outliers summary ''clip'' s"
      using True x by simp
    have ih: "fst (handle_outliers summary ''clip'' s) = None \<and>
         col_names (cur (snd (handle_outliers summary ''clip'' s))) = col_names (cur s) \<and>
         (\<forall>c. series (cur (snd (handle_outliers summary ''clip'' s))) c =
              (if c \<in> set (col_names (cur s)) \<and> (\<exists>n>0. (c, Some n) \<in> set summary)
               then map (clip_cell (iqr_fences (dropna_values (series (cur s) c)))) (series (cur s) c)
               else series (cur s) c))"
      using Cons.prems(2) by (intro Cons.IH [OF dist]) auto
    have same: "(c \<in> set (col_names (cur s)) \<and> (\<exists>n>0. (c, Some n) \<in> set (x # summary))) =
                (c \<in> set (col_names (cur s)) \<and> (\<exists>n>0. (c, Some n) \<in> set summary))" for c
      using True x by auto
    show ?thesis
      unfolding step same using ih by blast
  next
    case False
    then have present: "col \<in> set (col_names (cur s))"
      and pos: "\<exists>n>0. st = Some n"
      by (auto split: option.splits)
    have num: "is_np_number (dtype_of (cur s) col)"
      using Cons.prems(2) False x by auto
    define F where "F = iqr_fences (dropna_values (series (cur s) col))"
    define s' where "s' = log_action (set_cur s (map_column (cur s) col (clip_cell F))) (Clipped col)"
    have cur': "cur s' = map_column (cur s) col (clip_cell F)"
      by (simp add: s'_def)
    have step: "handle_outliers (x # summary) ''clip'' s = handle_outliers summary ''clip'' s'"
      using False num x by (simp add: Let_def s'_def F_def)
    have names: "col_names (cur s') = col_names (cur s)"
      by (simp add: cur')
    have "\<forall>(c, st) \<in> set summary.
           c \<in> set (col_names (cur s')) \<and> (case st of None \<Rightarrow> 0 | Some n \<Rightarrow> n) \<noteq> 0 \<longrightarrow>
           is_np_number (dtype_of (cur s') c)"
      using Cons.prems(2) by (auto simp: cur')
    then have ih: "fst (handle_outliers summary ''clip'' s') = None \<and>
         col_names (cur (snd (handle_outliers summary ''clip'' s'))) = col_names (cur s') \<and>
         (\<forall>c. series (cur (snd (handle_outliers summary ''clip'' s'))) c =
              (if c \<in> set (col_names (cur s')) \<and> (\<exists>n>0. (c, Some n) \<in> set summary)
               then map (clip_cell (iqr_fences (dropna_values (series (cur s') c)))) (series (cur s') c)
               else series (cur s') c))"
      by (rule Cons.IH [OF dist])
    have "series (cur (snd (handle_outliers summary ''clip'' s'))) c =
              (if c \<in> set (col_names (cur s)) \<and> (\<exists>n>0. (c, Some n) \<in> set (x # summary))
               then map (clip_cell (iqr_fences (dropna_values (series (cur s) c)))) (series (cur s) c)
               else series (cur s) c)" for c
    proof (cases "c = col")
      case True
      have "series (cur (snd (handle_outliers summary ''clip'' s'))) col = series (cur s') col"
        using ih fresh' by simp
      also have "\<dots> = map (clip_cell F) (series (cur s) col)"
        by (simp add: cur' series_map_column_same)
      finally have "series (cur (snd (handle_outliers summary ''clip'' s'))) col =
          map (clip_cell F) (series (cur s) col)" .
      moreover have "\<exists>n>0. (col, Some n) \<in> set (x # summary)"
        using pos x by auto
      ultimately show ?thesis
        using True present by (simp add: F_def)
    next
      case False
      have other: "series (cur s') c = series (cur s) c"
        unfolding cur' using present False by (intro series_map_column_other) auto
      have eq: "(\<exists>n>0. (c, Some n) \<in> set (x # summary)) = (\<exists>n>0. (c, Some n) \<in> set summary)"
        using False x by auto
      have "series (cur (snd (handle_outliers summary ''clip'' s'))) c =
              (if c \<in> set (col_names (cur s')) \<and> (\<exists>n>0. (c, Some n) \<in> set summary)
               then map (clip_cell (iqr_fences (dropna_values (series (cur s') c)))) (series (cur s') c)
               else series (cur s') c)"
        using ih by blast
      then show ?thesis
        unfolding names other eq .
    qed
    then show ?thesis
      unfolding step using ih names by simp
  qed
qed


lemma iqr_fences_ordered:
  assumes "iqr_fences vs = Some (lower, upper)"
  shows "lower \<le> upper"
proof -
  have ne: "vs \<noteq> []"
    using assms by (auto simp: iqr_fences_def split: if_splits)
  define q1 where "q1 = quantile vs (25 / 100)"
  define q3 where "q3 = quantile vs (75 / 100)"
  define d where "d = 15 / 10 * (q3 - q1)"
  have q: "q1 \<le> q3"
    unfolding q1_def q3_def by (rule iqr_nonneg [OF ne])
  then have "0 \<le> d"
    by (simp add: d_def)
  with q have "q1 - d \<le> q3 + d"
    by linarith
  moreover have "lower = q1 - d" and "upper = q3 + d"
    using assms ne by (simp_all add: iqr_fences_def Let_def q1_def q3_def d_def)
  ultimately show ?thesis
    by simp
qed

lemma clipped_within:
  assumes "lower \<le> upper" and "Num v \<in> set (map (clip_cell (Some (lower, upper))) xs)"
  shows "lower \<le> v \<and> v \<le> upper"
proof -
  obtain x where x: "x \<in> set xs" and v: "Num v = clip_cell (Some (lower, upper)) x"
    using assms(2) by auto
  show ?thesis
  proof (cases x)
    case (Num u)
    then show ?thesis using v assms(1) by auto
  qed (use v in auto)
qed

lemma age_fences:
  "iqr_fences [20, 25, 30, 35, 40, 45, 50, 55, 60, 150] = Some (- 5 / 2, 175 / 2)"
  by (simp add: iqr_fences_def Let_def age_quartiles)

lemma clip_cell_fences:
  "clip_cell (iqr_fences vs) x =
     (if vs = [] then x
      else (case x of
              Num v \<Rightarrow> Num (min (max v (quantile vs (25 / 100) -
                                15 / 10 * (quantile vs (75 / 100) - quantile vs (25 / 100))))
                             (quantile vs (75 / 100) +
                                15 / 10 * (quantile vs (75 / 100) - quantile vs (25 / 100))))
            | _ \<Rightarrow> x))"
  by (cases x) (simp_all add: iqr_fences_def Let_def)

text \<open>
  Claim C3, amended. With the strategy \<open>clip\<close>, for a summary (a dict, so its keys are
  distinct) in which every column that is in the working copy and listed with at least one
  IQR outlier is numeric, \<open>handle_outliers\<close> does not raise. Afterwards every such column
  that has a value holds its former cells with each number \<open>v\<close> replaced by
  \<open>min (max v lower) upper\<close>, where \<open>lower = Q1 - 1.5 * IQR\<close> and
  \<open>upper = Q3 + 1.5 * IQR\<close> are computed from the quartiles of the working copy as it was
  at the call, and every number left in it lies between the two fences. Every other column
  is as before.
\<close>

theorem handle_outliers_clip:
  assumes "distinct (map fst summary)"
    and "\<forall>(c, st) \<in> set summary.
           c \<in> set (col_names (cur s)) \<and> (case st of None \<Rightarrow> 0 | Some n \<Rightarrow> n) \<noteq> 0 \<longrightarrow>
           is_np_number (dtype_of (cur s) c)"
  shows "fst (handle_outliers summary ''clip'' s) = None \<and>
         (\<forall>c. let xs = series (cur s) c;
                  vs = dropna_values xs;
                  q1 = quantile vs (25 / 100);
                  q3 = quantile vs (75 / 100);
                  lower = q1 - 15 / 10 * (q3 - q1);
                  upper = q3 + 15 / 10 * (q3 - q1);
                  clipped = series (cur (snd (handle_outliers summary ''clip'' s))) c
              in if c \<in> set (col_names (cur s)) \<and> (\<exists>n>0. (c, Some n) \<in> set summary) \<and> vs \<noteq> []
                 then clipped = map (\<lambda>x. case x of Num v \<Rightarrow> Num (min (max v lower) upper) | _ \<Rightarrow> x) xs \<and>
                      (\<forall>v. Num v \<in> set clipped \<longrightarrow> lower \<le> v \<and> v \<le> upper)
                 else clipped = xs)"
proof -
  note loop = clip_loop [OF assms]
  have "let xs = series (cur s) c;
            vs = dropna_values xs;
            q1 = quantile vs (25 / 100);
            q3 = quantile vs (75 / 100);
            lower = q1 - 15 / 10 * (q3 - q1);
            upper = q3 + 15 / 10 * (q3 - q1);
            clipped = series (cur (snd (handle_outliers summary ''clip'' s))) c
        in if c \<in> set (col_names (cur s)) \<and> (\<exists>n>0. (c, Some n) \<in> set summary) \<and> vs \<noteq> []
           then clipped = map (\<lambda>x. case x of Num v \<Rightarrow> Num (min (max v lower) upper) | _ \<Rightarrow> x) xs \<and>
                (\<forall>v. Num v \<in> set clipped \<longrightarrow> lower \<le> v \<and> v \<le> upper)
           else clipped = xs" for c
  proof -
    define xs where "xs = series (cur s) c"
    define vs where "vs = dropna_values xs"
    define lower where "lower = quantile vs (25 / 100) - 15 / 10 * (quantile vs (75 / 100) - quantile vs (25 / 100))"
    define upper where "upper = quantile vs (75 / 100) + 15 / 10 * (quantile vs (75 / 100) - quantile vs (25 / 100))"
    define clipped where "clipped = series (cur (snd (handle_outliers summary ''clip'' s))) c"
    have eq: "clipped = (if c \<in> set (col_names (cur s)) \<and> (\<exists>n>0. (c, Some n) \<in> set summary)
                         then map (clip_cell (iqr_fences vs)) xs else xs)"
      unfolding clipped_def xs_def vs_def using loop by blast
    have none: "map (clip_cell (iqr_fences vs)) xs = xs" if "vs = []"
      using that by (simp add: clip_cell_fences map_idI)
    have fe: "clip_cell (iqr_fences vs) x =
                (case x of Num v \<Rightarrow> Num (min (max v lower) upper) | _ \<Rightarrow> x)"
      if "vs \<noteq> []" for x
      unfolding lower_def upper_def using that by (simp only: clip_cell_fences if_False)
    have some: "map (clip_cell (iqr_fences vs)) xs =
                  map (\<lambda>x. case x of Num v \<Rightarrow> Num (min (max v lower) upper) | _ \<Rightarrow> x) xs"
      if "vs \<noteq> []"
      by (intro map_cong refl fe that)
    have f: "iqr_fences vs = Some (lower, upper)" if "vs \<noteq> []"
      using that by (simp add: lower_def upper_def iqr_fences_def Let_def)
    have within: "lower \<le> v \<and> v \<le> upper"
      if "vs \<noteq> []" and "Num v \<in> set (map (clip_cell (iqr_fences vs)) xs)" for v
      using that(2) iqr_fences_ordered [OF f [OF that(1)]] clipped_within [of lower upper v xs] by (simp add: f [OF that(1)])
    have "if c \<in> set (col_names (cur s)) \<and> (\<exists>n>0. (c, Some n) \<in> set summary) \<and> vs \<noteq> []
           then clipped = map (\<lambda>x. case x of Num v \<Rightarrow> Num (min (max v lower) upper) | _ \<Rightarrow> x) xs \<and>
                (\<forall>v. Num v \<in> set clipped \<longrightarrow> lower \<le> v \<and> v \<le> upper)
           else clipped = xs"
    proof (cases "c \<in> set (col_names (cur s)) \<and> (\<exists>n>0. (c, Some n) \<in> set summary) \<and> vs \<noteq> []")
      case True
      then have ne: "vs \<noteq> []" and act: "c \<in> set (col_names (cur s)) \<and> (\<exists>n>0. (c, Some n) \<in> set summary)"
        by blast+
      have c: "clipped = map (clip_cell (iqr_fences vs)) xs"
        unfolding eq if_P [OF act] ..
      have A: "clipped = map (\<lambda>x. case x of Num v \<Rightarrow> Num (min (max v lower) upper) | _ \<Rightarrow> x) xs"
        unfolding c by (rule some [OF ne])
      have B: "\<forall>v. Num v \<in> set clipped \<longrightarrow> lower \<le> v \<and> v \<le> upper"
        unfolding c using within [OF ne] by blast
      show ?thesis
        unfolding if_P [OF True] using A B by (rule conjI)
    next
      case False
      have "clipped = xs"
      proof (cases "c \<in> set (col_names (cur s)) \<and> (\<exists>n>0. (c, Some n) \<in> set summary)")
        case act: True
        with False have "vs = []" by blast
        then show ?thesis
          unfolding eq if_P [OF act] by (rule none)
      next
        case inact: False
        show ?thesis
          unfolding eq if_not_P [OF inact] ..
      qed
      then show ?thesis
        unfolding if_not_P [OF False] .
    qed
    then show ?thesis
      unfolding Let_def xs_def vs_def lower_def upper_def clipped_def .
  qed
  with loop show ?thesis
    by blast
qed


text \<open>
  The claim as stated, for every outlier summary, fails: with the text column
  \<open>department\<close> listed before \<open>age\<close>, the quantile raises TypeError and \<open>age\<close>, listed
  with one IQR outlier, keeps the value 150.
\<close>

theorem handle_outliers_raises_on_text_column:
  "fst (handle_outliers [(''department'', Some (Suc 0)), (''age'', Some (Suc 0))] ''clip''
          (cleaner_init (\<lambda>a. base_test_data) (Suc 0) 0)) = Some TypeError \<and>
   series (cur (snd (handle_outliers [(''department'', Some (Suc 0)), (''age'', Some (Suc 0))] ''clip''
          (cleaner_init (\<lambda>a. base_test_data) (Suc 0) 0)))) ''age'' =
     [Num 20, Num 25, Num 30, Num 35, Num 40, Num 45, Num 50, Num 55, Num 60, Num 150]"
proof -
  have dt: "dtype_of base_test_data ''department'' = Object"
    by (simp add: dtype_of_def base_test_data_def)
  have "handle_outliers [(''department'', Some (Suc 0)), (''age'', Some (Suc 0))] ''clip''
          (cleaner_init (\<lambda>a. base_test_data) (Suc 0) 0) =
        (Some TypeError, cleaner_init (\<lambda>a. base_test_data) (Suc 0) 0)"
    by (simp add: col_names_base dt)
  then show ?thesis
    by (simp add: series_age)
qed

text \<open>
  Scenario C of the specification, on the test fixture with the summary
  \<^verbatim>\<open>{'age': {'iqr_outliers': 1}}\<close>: the value 150 becomes 87.5, which is the maximum of
  the column, equal to the upper fence \<open>Q3 + 1.5 * IQR\<close> of the data before the call and
  less than 150.
\<close>

theorem handle_outliers_clip_witness:
  "distinct (map fst [(''age'', Some (Suc 0))]) \<and>
   is_np_number (dtype_of (cur (cleaner_init (\<lambda>a. base_test_data) (Suc 0) 0)) ''age'') \<and>
   fst (handle_outliers [(''age'', Some (Suc 0))] ''clip''
          (cleaner_init (\<lambda>a. base_test_data) (Suc 0) 0)) = None \<and>
   series (cur (snd (handle_outliers [(''age'', Some (Suc 0))] ''clip''
          (cleaner_init (\<lambda>a. base_test_data) (Suc 0) 0)))) ''age'' =
     [Num 20, Num 25, Num 30, Num 35, Num 40, Num 45, Num 50, Num 55, Num 60, Num (175 / 2)] \<and>
   Max (set (dropna_values (series (cur (snd (handle_outliers [(''age'', Some (Suc 0))] ''clip''
          (cleaner_init (\<lambda>a. base_test_data) (Suc 0) 0)))) ''age''))) =
     quantile (dropna_values (series base_test_data ''age'')) (3 / 4) +
       3 / 2 * (quantile (dropna_values (series base_test_data ''age'')) (3 / 4) -
                quantile (dropna_values (series base_test_data ''age'')) (1 / 4)) \<and>
   Max (set (dropna_values (series (cur (snd (handle_outliers [(''age'', Some (Suc 0))] ''clip''
          (cleaner_init (\<lambda>a. base_test_data) (Suc 0) 0)))) ''age''))) < 150"
proof -
  let ?s0 = "cleaner_init (\<lambda>a. base_test_data) (Suc 0) 0"
  define r where "r = handle_outliers [(''age'', Some (Suc 0))] ''clip'' ?s0"
  have d: "distinct (map fst [(''age'', Some (Suc 0))])"
    by simp
  have dt: "is_np_number (dtype_of (cur ?s0) ''age'')"
    by (simp add: dtype_of_def base_test_data_def)
  have num: "\<forall>(c, st) \<in> set [(''age'', Some (Suc 0))].
           c \<in> set (col_names (cur ?s0)) \<and> (case st of None \<Rightarrow> 0 | Some n \<Rightarrow> n) \<noteq> 0 \<longrightarrow>
           is_np_number (dtype_of (cur ?s0) c)"
    using dt by simp
  note inst = handle_outliers_clip [OF d num, folded r_def]
  have ok: "fst r = None"
    using inst by blast
  have "let xs = series (cur ?s0) ''age'';
            vs = dropna_values xs;
            q1 = quantile vs (25 / 100);
            q3 = quantile vs (75 / 100);
            lower = q1 - 15 / 10 * (q3 - q1);
            upper = q3 + 15 / 10 * (q3 - q1);
            clipped = series (cur (snd r)) ''age''
        in if ''age'' \<in> set (col_names (cur ?s0)) \<and>
              (\<exists>n>0. (''age'', Some n) \<in> set [(''age'', Some (Suc 0))]) \<and> vs \<noteq> []
           then clipped = map (\<lambda>x. case x of Num v \<Rightarrow> Num (min (max v lower) upper) | _ \<Rightarrow> x) xs \<and>
                (\<forall>v. Num v \<in> set clipped \<longrightarrow> lower \<le> v \<and> v \<le> upper)
           else clipped = xs"
    using inst by blast
  then have ser: "series (cur (snd r)) ''age'' =
     [Num 20, Num 25, Num 30, Num 35, Num 40, Num 45, Num 50, Num 55, Num 60, Num (175 / 2)]"
    by (simp add: Let_def col_names_base age_values age_quartiles series_age)
  have mx: "Max (set (dropna_values (series (cur (snd r)) ''age''))) = 175 / 2"
    unfolding ser by simp
  show ?thesis
    unfolding r_def [symmetric] mx using d dt ok ser by (simp add: age_values age_quartiles)
qed

end
